theory Spec2Isabelle
  imports Complex_Main "HOL-Library.Word" "HOL-Library.Monad_Syntax" "HOL-Library.AList"
begin

section \<open>Python values\<close>

text \<open>
  A Python \<open>str\<close> is a sequence of Unicode code points, and \<open>len\<close>, slicing and
  \<open>strip\<close> count code points. The text type of the model is therefore a list of code
  points, each an integer; \<open>py ''abc''\<close> is the text of an ASCII literal of the source.
\<close>

type_synonym pystr = "int list"

abbreviation py :: "string \<Rightarrow> pystr" where
  "py s \<equiv> map of_char s"

text \<open>
  \<open>str.strip()\<close> without argument removes the characters for which \<open>str.isspace\<close>
  holds, from both ends.
\<close>

definition is_space :: "int \<Rightarrow> bool" where
  "is_space c \<longleftrightarrow>
     (9 \<le> c \<and> c \<le> 13) \<or> (28 \<le> c \<and> c \<le> 32) \<or> c = 133 \<or> c = 160 \<or> c = 5760 \<or>
     (8192 \<le> c \<and> c \<le> 8202) \<or> c = 8232 \<or> c = 8233 \<or> c = 8239 \<or> c = 8287 \<or> c = 12288"

definition strip :: "pystr \<Rightarrow> pystr" where
  "strip s = rev (dropWhile is_space (rev (dropWhile is_space s)))"

definition startswith :: "pystr \<Rightarrow> pystr \<Rightarrow> bool" where
  "startswith s p \<longleftrightarrow> take (length p) s = p"

text \<open>
  The values \<open>json.loads\<close> returns: \<open>None\<close>, \<open>bool\<close>, \<open>int\<close>, \<open>float\<close>, \<open>str\<close>,
  \<open>list\<close> and \<open>dict\<close> (keys in insertion order). A float is only ever tested for
  being zero and passed on, so it is carried as the real number it denotes, or as one of
  the three non-finite values.
\<close>

datatype pyfloat = Finite real | PosInf | NegInf | NaN

datatype json =
    JNull
  | JBool bool
  | JInt int
  | JFloat pyfloat
  | JStr pystr
  | JArr "json list"
  | JObj "(pystr \<times> json) list"

text \<open>Truth value of an object, as \<open>if x:\<close>, \<open>x or y\<close> and \<open>not x\<close> test it.\<close>

fun truthy :: "json \<Rightarrow> bool" where
  "truthy JNull = False"
| "truthy (JBool b) = b"
| "truthy (JInt i) = (i \<noteq> 0)"
| "truthy (JFloat (Finite r)) = (r \<noteq> 0)"
| "truthy (JFloat _) = True"
| "truthy (JStr s) = (s \<noteq> [])"
| "truthy (JArr xs) = (xs \<noteq> [])"
| "truthy (JObj kvs) = (kvs \<noteq> [])"

fun type_name :: "json \<Rightarrow> pystr" where
  "type_name JNull = py ''NoneType''"
| "type_name (JBool _) = py ''bool''"
| "type_name (JInt _) = py ''int''"
| "type_name (JFloat _) = py ''float''"
| "type_name (JStr _) = py ''str''"
| "type_name (JArr _) = py ''list''"
| "type_name (JObj _) = py ''dict''"

text \<open>
  The exceptions that the calls of the source can raise, all of them subclasses of
  \<open>Exception\<close>: \<open>AttributeError\<close> from \<open>x.get(...)\<close> when \<open>x\<close> is not a dict, which
  carries the type name from which \<open>str(e)\<close> is built, and whatever \<open>json.loads\<close> raises
  that is not a \<open>JSONDecodeError\<close>, which carries its \<open>str(e)\<close>.
\<close>

datatype exn = AttributeError pystr | LoadsError pystr

fun str_exn :: "exn \<Rightarrow> pystr" where
  "str_exn (AttributeError t) =
     [39] @ t @ [39] @ py '' object has no attribute '' @ [39] @ py ''get'' @ [39]"
| "str_exn (LoadsError m) = m"

text \<open>\<open>x.get(key, default)\<close>.\<close>

fun py_get :: "json \<Rightarrow> pystr \<Rightarrow> json \<Rightarrow> exn + json" where
  "py_get (JObj kvs) k d = Inr (case map_of kvs k of Some v \<Rightarrow> v | None \<Rightarrow> d)"
| "py_get v k d = Inl (AttributeError (type_name v))"

text \<open>
  \<open>json.loads\<close> is the decoder of the Python standard library. On a text it returns a
  value, raises \<open>JSONDecodeError\<close>, or raises another exception: \<open>RecursionError\<close> on a
  text nested too deeply, \<open>ValueError\<close> on an integer with more digits than the
  interpreter converts. The handlers of the source tell the two kinds of exception apart,
  so the model does too. The functions below take the decoder as the parameter \<open>loads\<close>,
  and what is proved of them holds for every decoder.
\<close>

datatype decoded =
    Value json
  | JSONDecodeError
  | OtherError pystr   \<comment> \<open>\<open>str(e)\<close> of an exception that is not a \<open>JSONDecodeError\<close>\<close>

type_synonym decoder = "pystr \<Rightarrow> decoded"

text \<open>
  \<open>json.dumps\<close> is total on the values above. A yielded text is recorded as the call
  that produced it: \<open>Dumps v\<close> for \<open>json.dumps(v)\<close> and \<open>DumpsUnicode v\<close> for
  \<open>json.dumps(v, ensure_ascii=False)\<close>.
\<close>

datatype yielded = Dumps json | DumpsUnicode json

subsection \<open>A decoder to evaluate with\<close>

text \<open>
  To run the functions on concrete lines a concrete decoder is needed. \<open>json_loads\<close>
  follows the grammar of \<open>json.loads\<close> (white space, strict strings, no leading zeros,
  no trailing commas, a repeated key keeps its place and takes the last value, no text
  after the value) on the part of JSON it covers: objects, arrays, strings with the
  two-character escapes, integers, \<open>true\<close>, \<open>false\<close> and \<open>null\<close>. An integer of more
  than 4300 digits, the default limit of the interpreter, raises \<open>ValueError\<close> with the
  message of the interpreter. The decoder answers \<open>JSONDecodeError\<close> on a text with a
  fraction, an exponent, a \<open>\u\<close> escape or one of the names \<open>NaN\<close> and \<open>Infinity\<close>,
  which \<open>json.loads\<close> accepts, and it has no limit of nesting, where \<open>json.loads\<close> raises
  \<open>RecursionError\<close> at a depth that depends on the state of the interpreter; it is
  applied to no such text below, and no general theorem depends on it. The recursion on
  nested values is bounded by the length of the text.
\<close>

datatype 'a scanned =
    Scanned 'a pystr   \<comment> \<open>what was read, and the text behind it\<close>
  | Malformed          \<comment> \<open>\<open>JSONDecodeError\<close>\<close>
  | Refused pystr      \<comment> \<open>\<open>str(e)\<close> of the \<open>ValueError\<close>\<close>

fun skip_ws :: "pystr \<Rightarrow> pystr" where
  "skip_ws [] = []"
| "skip_ws (c # cs) = (if c = 32 \<or> c = 9 \<or> c = 10 \<or> c = 13 then skip_ws cs else c # cs)"

definition unescape :: "int \<Rightarrow> int option" where
  "unescape c =
     (if c = 34 \<or> c = 92 \<or> c = 47 then Some c
      else if c = 98 then Some 8
      else if c = 102 then Some 12
      else if c = 110 then Some 10
      else if c = 114 then Some 13
      else if c = 116 then Some 9
      else None)"

fun scan_string :: "pystr \<Rightarrow> pystr \<Rightarrow> (pystr \<times> pystr) option" where
  "scan_string acc [] = None"
| "scan_string acc [c] = (if c = 34 then Some (rev acc, []) else None)"
| "scan_string acc (c # d # cs) =
     (if c = 34 then Some (rev acc, d # cs)
      else if c = 92 then
        (case unescape d of Some x \<Rightarrow> scan_string (x # acc) cs | None \<Rightarrow> None)
      else if c < 32 then None
      else scan_string (c # acc) (d # cs))"

definition is_digit :: "int \<Rightarrow> bool" where
  "is_digit c \<longleftrightarrow> 48 \<le> c \<and> c \<le> 57"

definition digits_value :: "pystr \<Rightarrow> int" where
  "digits_value ds = foldl (\<lambda>a d. 10 * a + (d - 48)) 0 ds"

fun decimal :: "nat \<Rightarrow> pystr" where
  "decimal n = (if n < 10 then [48 + int n] else decimal (n div 10) @ [48 + int (n mod 10)])"

declare decimal.simps [simp del]

definition digits_limit_message :: "nat \<Rightarrow> pystr" where
  "digits_limit_message n =
     py ''Exceeds the limit (4300 digits) for integer string conversion: value has '' @
     decimal n @
     py '' digits; use sys.set_int_max_str_digits() to increase the limit''"

definition scan_int :: "pystr \<Rightarrow> json scanned" where
  "scan_int s =
     (let neg = (s \<noteq> [] \<and> hd s = 45);
          r = (if neg then tl s else s);
          ds = (if r \<noteq> [] \<and> hd r = 48 then [48] else takeWhile is_digit r);
          rest = drop (length ds) r
      in if ds = [] then Malformed
         else if rest \<noteq> [] \<and> (hd rest = 46 \<or> hd rest = 101 \<or> hd rest = 69) then Malformed
         else if 4300 < length ds then Refused (digits_limit_message (length ds))
         else Scanned (JInt (if neg then - digits_value ds else digits_value ds)) rest)"

fun parse_value :: "nat \<Rightarrow> pystr \<Rightarrow> json scanned"
  and parse_array :: "nat \<Rightarrow> json list \<Rightarrow> pystr \<Rightarrow> json scanned"
  and parse_object :: "nat \<Rightarrow> (pystr \<times> json) list \<Rightarrow> pystr \<Rightarrow> json scanned"
  where
  "parse_value 0 s = Malformed"
| "parse_value (Suc n) s =
     (case skip_ws s of
        [] \<Rightarrow> Malformed
      | c # cs \<Rightarrow>
          if c = 123 then
            (case skip_ws cs of
               [] \<Rightarrow> Malformed
             | d # ds \<Rightarrow>
                 if d = 125 then Scanned (JObj []) ds
                 else parse_object n [] (d # ds))
          else if c = 91 then
            (case skip_ws cs of
               [] \<Rightarrow> Malformed
             | d # ds \<Rightarrow>
                 if d = 93 then Scanned (JArr []) ds
                 else parse_array n [] (d # ds))
          else if c = 34 then
            (case scan_string [] cs of
               None \<Rightarrow> Malformed
             | Some (t, r) \<Rightarrow> Scanned (JStr t) r)
          else if startswith (c # cs) (py ''null'') then Scanned JNull (drop 4 (c # cs))
          else if startswith (c # cs) (py ''true'') then Scanned (JBool True) (drop 4 (c # cs))
          else if startswith (c # cs) (py ''false'') then Scanned (JBool False) (drop 5 (c # cs))
          else scan_int (c # cs))"
| "parse_array 0 acc s = Malformed"
| "parse_array (Suc n) acc s =
     (case parse_value n s of
        Malformed \<Rightarrow> Malformed
      | Refused m \<Rightarrow> Refused m
      | Scanned v r \<Rightarrow>
          (case skip_ws r of
             [] \<Rightarrow> Malformed
           | c # cs \<Rightarrow>
               if c = 44 then parse_array n (acc @ [v]) cs
               else if c = 93 then Scanned (JArr (acc @ [v])) cs
               else Malformed))"
| "parse_object 0 acc s = Malformed"
| "parse_object (Suc n) acc s =
     (case skip_ws s of
        [] \<Rightarrow> Malformed
      | q # qs \<Rightarrow>
          if q \<noteq> 34 then Malformed
          else
            (case scan_string [] qs of
               None \<Rightarrow> Malformed
             | Some (k, r) \<Rightarrow>
                 (case skip_ws r of
                    [] \<Rightarrow> Malformed
                  | c # cs \<Rightarrow>
                      if c \<noteq> 58 then Malformed
                      else
                        (case parse_value n cs of
                           Malformed \<Rightarrow> Malformed
                         | Refused m \<Rightarrow> Refused m
                         | Scanned v r2 \<Rightarrow>
                             (case skip_ws r2 of
                                [] \<Rightarrow> Malformed
                              | e # es \<Rightarrow>
                                  if e = 44 then parse_object n (AList.update k v acc) es
                                  else if e = 125 then Scanned (JObj (AList.update k v acc)) es
                                  else Malformed)))))"

definition json_loads :: decoder where
  "json_loads s =
     (case parse_value (Suc (length s)) s of
        Malformed \<Rightarrow> JSONDecodeError
      | Refused m \<Rightarrow> OtherError m
      | Scanned v r \<Rightarrow> if skip_ws r = [] then Value v else JSONDecodeError)"

section \<open>models/dify\_models.py\<close>

record DifySSEEvent =
  event :: pystr
  data :: pystr

text \<open>
  \<open>parse_data\<close> catches \<open>JSONDecodeError\<close> and nothing else: any other exception of
  \<open>json.loads\<close> leaves it.
\<close>

definition parse_data :: "decoder \<Rightarrow> DifySSEEvent \<Rightarrow> exn + json" where
  "parse_data loads ev =
     (case loads (data ev) of
        Value v \<Rightarrow> Inr v
      | JSONDecodeError \<Rightarrow> Inr (JObj [(py ''raw_data'', JStr (data ev))])
      | OtherError m \<Rightarrow> Inl (LoadsError m))"

section \<open>services/sse\_processor.py\<close>

subsection \<open>The line parser\<close>

text \<open>
  The methods of \<open>SSEProcessor\<close> keep their names, without the leading underscore.
  \<open>_parse_sse_line\<close> reads and writes the attribute \<open>self._current_event\<close> of the
  processor object. The attribute does not exist until the first \<open>event:\<close> line has been
  parsed (\<open>getattr\<close> with a default reads it), so the state of the object is an optional
  text. The function returns the parsed event, if any, and the new state.
\<close>

type_synonym processor = "pystr option"

definition parse_sse_line :: "processor \<Rightarrow> pystr \<Rightarrow> DifySSEEvent option \<times> processor" where
  "parse_sse_line self line0 =
     (let line = strip line0 in
      if line = [] \<or> startswith line (py '':'') then (None, self)
      else if startswith line (py ''event:'') then (None, Some (strip (drop 6 line)))
      else if startswith line (py ''data:'') then
        (let data_content = strip (drop 5 line) in
         if data_content = [] then (None, self)
         else
           (let event_type = (case self of Some e \<Rightarrow> e | None \<Rightarrow> py ''message'')
            in (Some \<lparr>event = event_type, data = data_content\<rparr>, self)))
      else (None, self))"

subsection \<open>Classification and extraction\<close>

text \<open>
  \<open>_is_workflow_finished_event\<close> answers \<open>False\<close> when \<open>parse_data\<close> or \<open>.get\<close> raises.
\<close>

definition is_workflow_finished_event :: "decoder \<Rightarrow> DifySSEEvent \<Rightarrow> bool" where
  "is_workflow_finished_event loads ev =
     (case parse_data loads ev of
        Inl e \<Rightarrow> False
      | Inr d \<Rightarrow>
          (case py_get d (py ''event'') JNull of
             Inr v \<Rightarrow> v = JStr (py ''workflow_finished'')
           | Inl e \<Rightarrow> False))"

text \<open>
  Inside \<open>try: ... except Exception: return None\<close> (or \<open>continue\<close>) a call that raises
  ends the block: \<open>attempt\<close> turns the exception into \<open>None\<close>.
\<close>

definition attempt :: "exn + 'a \<Rightarrow> 'a option" where
  "attempt r = (case r of Inr x \<Rightarrow> Some x | Inl e \<Rightarrow> None)"

definition try_get :: "json \<Rightarrow> pystr \<Rightarrow> json \<Rightarrow> json option" where
  "try_get v k d = attempt (py_get v k d)"

text \<open>
  The second decode of \<open>_extract_workflow_result\<close>: the branch on the raw value of
  \<open>outputs.result\<close>, which leaves \<open>parsed_result\<close> at \<open>None\<close> (here \<open>JNull\<close>) when
  neither test holds. Its handler catches \<open>JSONDecodeError\<close> only; another exception of
  \<open>json.loads\<close> reaches the outer handler of the function, and the answer \<open>None\<close> below
  stands for that.
\<close>

definition parse_result :: "decoder \<Rightarrow> json \<Rightarrow> json option" where
  "parse_result loads result_raw =
     (case result_raw of
        JStr s \<Rightarrow>
          (if strip s \<noteq> [] then
             (case loads s of
                Value v \<Rightarrow> Some v
              | JSONDecodeError \<Rightarrow> Some (JObj [(py ''text'', JStr s)])
              | OtherError m \<Rightarrow> None)
           else if truthy result_raw then Some result_raw
           else Some JNull)
      | _ \<Rightarrow> (if truthy result_raw then Some result_raw else Some JNull))"

definition extract_workflow_result :: "decoder \<Rightarrow> DifySSEEvent \<Rightarrow> json option" where
  "extract_workflow_result loads ev =
     do {
       d \<leftarrow> attempt (parse_data loads ev);
       workflow_run_id \<leftarrow> try_get d (py ''workflow_run_id'') (JStr []);
       task_id \<leftarrow> try_get d (py ''task_id'') (JStr []);
       event_data \<leftarrow> try_get d (py ''data'') (JObj []);
       status \<leftarrow> try_get event_data (py ''status'') (JStr (py ''unknown''));
       outputs \<leftarrow> try_get event_data (py ''outputs'') (JObj []);
       result_raw \<leftarrow> try_get outputs (py ''result'') (JStr []);
       parsed_result \<leftarrow> parse_result loads result_raw;
       Some (JObj
         [(py ''workflow_run_id'', workflow_run_id),
          (py ''task_id'', task_id),
          (py ''status'', status),
          (py ''result'', parsed_result),
          (py ''event_type'', JStr (py ''workflow_finished''))])
     }"

definition create_error_response :: "json \<Rightarrow> json \<Rightarrow> json \<Rightarrow> json" where
  "create_error_response error_msg workflow_run_id task_id =
     JObj
       [(py ''workflow_run_id'', if truthy workflow_run_id then workflow_run_id else JStr (py ''unknown'')),
        (py ''task_id'', if truthy task_id then task_id else JStr (py ''unknown'')),
        (py ''status'', JStr (py ''error'')),
        (py ''error'', error_msg),
        (py ''event_type'', JStr (py ''error''))]"

subsection \<open>The loop of \<open>process_dify_stream\<close>\<close>

text \<open>
  The metadata block of the loop body. Its \<open>except Exception: pass\<close> makes it a no-op
  when \<open>parse_data\<close> raises and on every value that is not a dict: on such a value each
  \<open>in\<close> test is false or raises, and where a test holds (a list or a text containing the
  key) the indexing raises before the assignment.
\<close>

definition update_ids :: "decoder \<Rightarrow> DifySSEEvent \<Rightarrow> json \<times> json \<Rightarrow> json \<times> json" where
  "update_ids loads ev ids =
     (case parse_data loads ev of
        Inr (JObj kvs) \<Rightarrow>
          (case map_of kvs (py ''workflow_run_id'') of Some v \<Rightarrow> v | None \<Rightarrow> fst ids,
           case map_of kvs (py ''task_id'') of Some v \<Rightarrow> v | None \<Rightarrow> snd ids)
      | _ \<Rightarrow> ids)"

text \<open>
  The condition of \<open>if event.event == 'error' or (hasattr(event, 'parse_data') and
  event.parse_data().get('event') == 'error')\<close>. It is evaluated outside every inner
  \<open>try\<close>, so an exception of its \<open>parse_data\<close> or of its \<open>.get\<close> leaves the loop.
\<close>

definition is_error_event :: "decoder \<Rightarrow> DifySSEEvent \<Rightarrow> exn + bool" where
  "is_error_event loads ev =
     (if event ev = py ''error'' then Inr True
      else
        (case parse_data loads ev of
           Inl e \<Rightarrow> Inl e
         | Inr d \<Rightarrow>
             (case py_get d (py ''event'') JNull of
                Inl e \<Rightarrow> Inl e
              | Inr v \<Rightarrow> Inr (v = JStr (py ''error'')))))"

text \<open>
  \<open>error_data = event.parse_data()\<close> and
  \<open>error_data.get('data', {}).get('error', 'Unknown error from Dify API')\<close> inside the
  \<open>try\<close> of the error branch; \<open>None\<close> when one of them raises.
\<close>

definition error_msg_of :: "decoder \<Rightarrow> DifySSEEvent \<Rightarrow> json option" where
  "error_msg_of loads ev =
     do {
       error_data \<leftarrow> attempt (parse_data loads ev);
       d \<leftarrow> try_get error_data (py ''data'') (JObj []);
       try_get d (py ''error'') (JStr (py ''Unknown error from Dify API''))
     }"

text \<open>What the loop body does with a parsed event, after the metadata block.\<close>

datatype outcome =
    Discarded         \<comment> \<open>\<open>continue\<close> in the handler of the error branch\<close>
  | Yielded yielded   \<comment> \<open>\<open>yield\<close> followed by \<open>return\<close>\<close>
  | Raised exn        \<comment> \<open>an exception that reaches the outer \<open>except\<close>\<close>
  | Consumed          \<comment> \<open>the end of the loop body\<close>

definition process_event :: "decoder \<Rightarrow> DifySSEEvent \<Rightarrow> json \<Rightarrow> json \<Rightarrow> outcome" where
  "process_event loads ev wid tid =
     (case is_error_event loads ev of
        Inl e \<Rightarrow> Raised e
      | Inr is_err \<Rightarrow>
          if is_err then
            (case error_msg_of loads ev of
               Some error_msg \<Rightarrow> Yielded (Dumps (create_error_response error_msg wid tid))
             | None \<Rightarrow> Discarded)
          else if is_workflow_finished_event loads ev then
            (case extract_workflow_result loads ev of
               Some result \<Rightarrow> if truthy result then Yielded (DumpsUnicode result) else Consumed
             | None \<Rightarrow> Consumed)
          else Consumed)"

text \<open>
  The effects of one invocation, in program order: the keep-alive task created, the
  keep-alive task cancelled, the keep-alive task found done (and so not cancelled), a text
  yielded. Whether \<open>keepalive_task.done()\<close> holds when a line arrives depends on the timer
  and the scheduler: the parameter \<open>fired\<close> is the set of the line numbers at which it
  does.
\<close>

datatype action = CreateKeepalive | CancelKeepalive | KeepaliveDone | Yield yielded

text \<open>
  How the loop ends: by the \<open>return\<close> after a \<open>yield\<close>, by an exception, or because
  the lines have run out. Meanwhile it holds the state of the processor object and the
  locals \<open>workflow_run_id\<close> and \<open>task_id\<close>, \<open>None\<close> being \<open>JNull\<close>.
\<close>

datatype fin = Returned | Failed exn | Drained

type_synonym frame = "processor \<times> json \<times> json"

fun consume ::
  "decoder \<Rightarrow> nat set \<Rightarrow> nat \<Rightarrow> frame \<Rightarrow> pystr list \<Rightarrow> action list \<times> frame \<times> fin" where
  "consume loads fired i fr [] = ([], fr, Drained)"
| "consume loads fired i (self, wid, tid) (sse_line # rest) =
     (let cancel = (if i \<in> fired then [KeepaliveDone] else [CancelKeepalive]);
          parsed = parse_sse_line self sse_line
      in case fst parsed of
           None \<Rightarrow>
             (let r = consume loads fired (Suc i) (snd parsed, wid, tid) rest
              in (cancel @ fst r, snd r))
         | Some ev \<Rightarrow>
             (let ids = update_ids loads ev (wid, tid)
              in case process_event loads ev (fst ids) (snd ids) of
                   Yielded y \<Rightarrow> (cancel @ [Yield y], (snd parsed, ids), Returned)
                 | Raised e \<Rightarrow> (cancel, (snd parsed, ids), Failed e)
                 | Discarded \<Rightarrow>
                     (let r = consume loads fired (Suc i) (snd parsed, ids) rest
                      in (cancel @ fst r, snd r))
                 | Consumed \<Rightarrow>
                     (let r = consume loads fired (Suc i) (snd parsed, ids) rest
                      in (cancel @ CreateKeepalive # fst r, snd r))))"

text \<open>
  The upstream generator \<open>execute_workflow_stream\<close> yields its lines and then either
  stops or raises; \<open>Raises m\<close> carries \<open>str(e)\<close> of the exception.
\<close>

datatype ending = Exhausted | Raises pystr

definition process_dify_stream ::
  "decoder \<Rightarrow> nat set \<Rightarrow> processor \<Rightarrow> pystr list \<Rightarrow> ending \<Rightarrow> action list \<times> processor" where
  "process_dify_stream loads fired self sse_lines upstream =
     (case consume loads fired 0 (self, JNull, JNull) sse_lines of
        (acts, (self', wid, tid), r) \<Rightarrow>
          (CreateKeepalive # acts @
             (case r of
                Returned \<Rightarrow> []
              | Failed e \<Rightarrow>
                  [Yield (Dumps (create_error_response
                     (JStr (py ''Stream processing error: '' @ str_exn e)) wid tid))]
              | Drained \<Rightarrow>
                  (case upstream of
                     Exhausted \<Rightarrow>
                       [Yield (Dumps (create_error_response
                          (JStr (py ''Stream ended without workflow completion'')) wid tid))]
                   | Raises m \<Rightarrow>
                       [Yield (Dumps (create_error_response
                          (JStr (py ''Stream processing error: '' @ m)) wid tid))])),
           self'))"

fun outputs :: "action list \<Rightarrow> yielded list" where
  "outputs [] = []"
| "outputs (Yield y # as) = y # outputs as"
| "outputs (a # as) = outputs as"

text \<open>The records that the line parser produces from a sequence of lines.\<close>

fun records :: "processor \<Rightarrow> pystr list \<Rightarrow> DifySSEEvent list" where
  "records self [] = []"
| "records self (l # ls) =
     (case fst (parse_sse_line self l) of
        None \<Rightarrow> records (snd (parse_sse_line self l)) ls
      | Some ev \<Rightarrow> ev # records (snd (parse_sse_line self l)) ls)"

text \<open>
  Whether a keep-alive task is left pending (created, and neither cancelled nor found
  done since) after a sequence of effects, and whether a task is only ever created while
  none is pending.
\<close>

fun pending :: "bool \<Rightarrow> action list \<Rightarrow> bool" where
  "pending p [] = p"
| "pending p (CreateKeepalive # as) = pending True as"
| "pending p (CancelKeepalive # as) = pending False as"
| "pending p (KeepaliveDone # as) = pending False as"
| "pending p (Yield y # as) = pending p as"

fun one_timer :: "bool \<Rightarrow> action list \<Rightarrow> bool" where
  "one_timer p [] = True"
| "one_timer p (CreateKeepalive # as) = (\<not> p \<and> one_timer True as)"
| "one_timer p (CancelKeepalive # as) = one_timer False as"
| "one_timer p (KeepaliveDone # as) = one_timer False as"
| "one_timer p (Yield y # as) = one_timer p as"

text \<open>The two shapes of output of the data model, as tests on a yielded text.\<close>

definition is_simplified_result :: "yielded \<Rightarrow> bool" where
  "is_simplified_result y =
     (case y of
        DumpsUnicode (JObj kvs) \<Rightarrow>
          map fst kvs =
            [py ''workflow_run_id'', py ''task_id'', py ''status'', py ''result'', py ''event_type'']
          \<and> map_of kvs (py ''event_type'') = Some (JStr (py ''workflow_finished''))
      | _ \<Rightarrow> False)"

definition is_error_result :: "yielded \<Rightarrow> bool" where
  "is_error_result y =
     (case y of
        Dumps (JObj kvs) \<Rightarrow>
          map fst kvs =
            [py ''workflow_run_id'', py ''task_id'', py ''status'', py ''error'', py ''event_type'']
          \<and> map_of kvs (py ''status'') = Some (JStr (py ''error''))
          \<and> map_of kvs (py ''event_type'') = Some (JStr (py ''error''))
      | _ \<Rightarrow> False)"

section \<open>services/dify\_client.py\<close>

text \<open>
  \<open>chunk.decode('utf-8', errors='ignore')\<close>: a well-formed UTF-8 sequence (shortest form,
  no surrogate, at most U+10FFFF) gives its code point; a byte that starts no well-formed
  sequence is dropped and decoding goes on with the next byte.
\<close>

type_synonym byte = "8 word"

definition cont :: "byte \<Rightarrow> bool" where
  "cont b \<longleftrightarrow> 0x80 \<le> b \<and> b \<le> 0xBF"

definition second_ok :: "byte \<Rightarrow> byte \<Rightarrow> bool" where
  "second_ok b c =
     (if b = 0xE0 then 0xA0 \<le> c \<and> c \<le> 0xBF
      else if b = 0xED then 0x80 \<le> c \<and> c \<le> 0x9F
      else if b = 0xF0 then 0x90 \<le> c \<and> c \<le> 0xBF
      else if b = 0xF4 then 0x80 \<le> c \<and> c \<le> 0x8F
      else cont c)"

fun utf8_decode_ignore :: "byte list \<Rightarrow> pystr" where
  "utf8_decode_ignore [] = []"
| "utf8_decode_ignore (b # bs) =
     (if b < 0x80 then uint b # utf8_decode_ignore bs
      else if 0xC2 \<le> b \<and> b \<le> 0xDF then
        (case bs of
           c # r \<Rightarrow>
             if cont c then (uint b mod 32 * 64 + uint c mod 64) # utf8_decode_ignore r
             else utf8_decode_ignore bs
         | _ \<Rightarrow> utf8_decode_ignore bs)
      else if 0xE0 \<le> b \<and> b \<le> 0xEF then
        (case bs of
           c # d # r \<Rightarrow>
             if second_ok b c \<and> cont d then
               (uint b mod 16 * 4096 + uint c mod 64 * 64 + uint d mod 64) # utf8_decode_ignore r
             else utf8_decode_ignore bs
         | _ \<Rightarrow> utf8_decode_ignore bs)
      else if 0xF0 \<le> b \<and> b \<le> 0xF4 then
        (case bs of
           c # d # e # r \<Rightarrow>
             if second_ok b c \<and> cont d \<and> cont e then
               (uint b mod 8 * 262144 + uint c mod 64 * 4096 + uint d mod 64 * 64 + uint e mod 64)
                 # utf8_decode_ignore r
             else utf8_decode_ignore bs
         | _ \<Rightarrow> utf8_decode_ignore bs)
      else utf8_decode_ignore bs)"

text \<open>
  The inner loop \<open>while '\n' in buffer\<close> of \<open>execute_workflow_stream\<close>: the lines it
  yields and the buffer it leaves.
\<close>

function split_lines :: "pystr \<Rightarrow> pystr list \<times> pystr" where
  "split_lines buffer =
     (if 10 \<in> set buffer then
        (let line = strip (takeWhile (\<lambda>c. c \<noteq> 10) buffer);
             r = split_lines (tl (dropWhile (\<lambda>c. c \<noteq> 10) buffer))
         in ((if line \<noteq> [] then [line] else []) @ fst r, snd r))
      else ([], buffer))"
  by pat_completeness auto
termination
proof (relation "measure length")
  fix buffer :: pystr
  assume "10 \<in> set buffer"
  then have "dropWhile (\<lambda>c. c \<noteq> 10) buffer \<noteq> []" by simp
  moreover have "length (dropWhile (\<lambda>c. c \<noteq> 10) buffer) \<le> length buffer"
    by (rule length_dropWhile_le)
  ultimately show "(tl (dropWhile (\<lambda>c. c \<noteq> 10) buffer), buffer) \<in> measure length"
    by (cases "dropWhile (\<lambda>c. c \<noteq> 10) buffer") auto
qed simp

declare split_lines.simps [simp del]

text \<open>
  The loop over the chunks of the response body, from the buffer held so far, and the
  flush of the buffer after the last chunk.
\<close>

fun read_chunks :: "pystr \<Rightarrow> byte list list \<Rightarrow> pystr list" where
  "read_chunks buffer [] = (if strip buffer \<noteq> [] then [strip buffer] else [])"
| "read_chunks buffer (chunk # chunks) =
     (if chunk \<noteq> [] then
        (let r = split_lines (buffer @ utf8_decode_ignore chunk)
         in fst r @ read_chunks (snd r) chunks)
      else read_chunks buffer chunks)"

definition execute_workflow_stream :: "byte list list \<Rightarrow> pystr list" where
  "execute_workflow_stream chunks = read_chunks [] chunks"

section \<open>Notions used in the statements\<close>

text \<open>The state of the processor object after its parser has read a sequence of lines.\<close>

fun parser_state :: "processor \<Rightarrow> pystr list \<Rightarrow> processor" where
  "parser_state self [] = self"
| "parser_state self (l # ls) = parser_state (snd (parse_sse_line self l)) ls"

text \<open>
  The lines of a whole decoded text: those that the inner loop yields from it, and the
  stripped rest if it is not empty.
\<close>

definition flush_lines :: "pystr \<Rightarrow> pystr list" where
  "flush_lines text =
     fst (split_lines text) @
       (if strip (snd (split_lines text)) \<noteq> [] then [strip (snd (split_lines text))] else [])"

text \<open>
  The value of \<open>d.get(k, default)\<close> for the dict with the entries \<open>kvs\<close>, and the dict that
  \<open>_extract_workflow_result\<close> returns, given the decoded envelope, its \<open>data\<close> object and
  the final \<open>result\<close> value.
\<close>

definition dict_get :: "(pystr \<times> json) list \<Rightarrow> pystr \<Rightarrow> json \<Rightarrow> json" where
  "dict_get kvs k d = (case map_of kvs k of Some v \<Rightarrow> v | None \<Rightarrow> d)"

definition simplified_result :: "(pystr \<times> json) list \<Rightarrow> (pystr \<times> json) list \<Rightarrow> json \<Rightarrow> json" where
  "simplified_result env dat res =
     JObj
       [(py ''workflow_run_id'', dict_get env (py ''workflow_run_id'') (JStr [])),
        (py ''task_id'', dict_get env (py ''task_id'') (JStr [])),
        (py ''status'', dict_get dat (py ''status'') (JStr (py ''unknown''))),
        (py ''result'', res),
        (py ''event_type'', JStr (py ''workflow_finished''))]"

section \<open>Properties\<close>

subsection \<open>An integer that the decoder refuses\<close>

text \<open>
  A text of more than 4300 digits is an integer that \<open>json_loads\<close> refuses, whatever
  the number of digits; the facts are proved for every length, since texts of this size
  are beyond evaluation.
\<close>

lemma skip_ws_digit: "skip_ws (49 # cs) = 49 # cs"
  by simp

lemma scan_int_ones:
  "4300 < n \<Longrightarrow> scan_int (replicate n 49) = Refused (digits_limit_message n)"
proof -
  assume n: "4300 < n"
  then have ne: "replicate n (49::int) \<noteq> []" by simp
  have tw: "takeWhile is_digit (replicate n 49) = replicate n 49"
    by (simp add: takeWhile_eq_all_conv is_digit_def)
  from n have hd: "hd (replicate n (49::int)) = 49" by (simp add: hd_replicate)
  show ?thesis
    unfolding scan_int_def Let_def using n ne by (simp add: tw hd is_digit_def)
qed

lemma parse_value_ones:
  "0 < n \<Longrightarrow> parse_value (Suc k) (replicate n 49) = scan_int (replicate n 49)"
proof -
  assume "0 < n"
  then obtain m where n: "n = Suc m" by (cases n) auto
  show ?thesis
    unfolding n by (simp add: startswith_def)
qed

lemma json_loads_ones:
  "4300 < n \<Longrightarrow> json_loads (replicate n 49) = OtherError (digits_limit_message n)"
proof -
  assume n: "4300 < n"
  then have "0 < n" by simp
  from parse_value_ones[OF this] scan_int_ones[OF n] show ?thesis
    by (simp only: json_loads_def length_replicate scanned.case)
qed

lemma digits_limit_message_4301:
  "digits_limit_message 4301 =
     py ''Exceeds the limit (4300 digits) for integer string conversion: value has 4301 digits; use sys.set_int_max_str_digits() to increase the limit''"
  by code_simp

text \<open>The decoding of a terminal success record whose result is a text of digits.\<close>

lemma scan_string_ones:
  "scan_string acc (replicate n 49 @ 34 # rest) = Some (rev acc @ replicate n 49, rest)"
proof (induction n arbitrary: acc)
  case 0
  show ?case by (cases rest) simp_all
next
  case (Suc n)
  obtain d cs where t: "replicate n 49 @ 34 # rest = d # cs"
    by (cases "replicate n (49::int) @ 34 # rest") auto
  have "scan_string acc (replicate (Suc n) 49 @ 34 # rest) = scan_string (49 # acc) (d # cs)"
    by (simp add: t)
  also have "\<dots> = Some (rev (49 # acc) @ replicate n 49, rest)"
    unfolding t[symmetric] by (rule Suc.IH)
  also have "rev (49 # acc) @ replicate n 49 = rev acc @ replicate (Suc n) 49"
    by simp
  finally show ?case .
qed

lemma strip_ones: "strip (replicate n 49) = replicate n 49"
  by (simp add: strip_def is_space_def)

lemma parse_value_long_result:
  \<open>parse_value (Suc (Suc (Suc (Suc (Suc (Suc (Suc (Suc k))))))))
     (py ''{"event":"workflow_finished","data":{"outputs":{"result":"'' @ replicate n 49 @ py ''"}}}'') =
   Scanned (JObj
     [(py ''event'', JStr (py ''workflow_finished'')),
      (py ''data'', JObj [(py ''outputs'', JObj [(py ''result'', JStr (replicate n 49))])])]) []\<close>
  by (simp add: scan_string_ones startswith_def unescape_def)

lemma json_loads_long_result:
  \<open>json_loads
     (py ''{"event":"workflow_finished","data":{"outputs":{"result":"'' @ replicate n 49 @ py ''"}}}'') =
   Value (JObj
     [(py ''event'', JStr (py ''workflow_finished'')),
      (py ''data'', JObj [(py ''outputs'', JObj [(py ''result'', JStr (replicate n 49))])])])\<close>
proof -
  have f: \<open>Suc (length
     (py ''{"event":"workflow_finished","data":{"outputs":{"result":"'' @ replicate n 49 @ py ''"}}}'')) =
     Suc (Suc (Suc (Suc (Suc (Suc (Suc (Suc (n + 55))))))))\<close>
    by simp
  show ?thesis
    unfolding json_loads_def f parse_value_long_result by simp
qed

subsection \<open>Data that is not JSON\<close>

text \<open>
  The claim C10 as stated fails. On a text of 4301 digits \<open>json.loads\<close> raises
  \<open>ValueError\<close>, which is not a \<open>JSONDecodeError\<close>, and \<open>parse_data\<close> lets it pass.
\<close>

theorem parse_data_counterexample:
  "parse_data json_loads \<lparr>event = py ''message'', data = replicate 4301 49\<rparr> =
     Inl (LoadsError
       (py ''Exceeds the limit (4300 digits) for integer string conversion: value has 4301 digits; use sys.set_int_max_str_digits() to increase the limit''))"
  by (simp only: parse_data_def DifySSEEvent.simps json_loads_ones[of 4301, simplified]
      decoded.case digits_limit_message_4301)

text \<open>
  C10, amended. On data that \<open>json.loads\<close> decodes, \<open>parse_data\<close> returns the value. On
  data for which \<open>json.loads\<close> raises \<open>JSONDecodeError\<close> it returns the object
  \<open>{"raw_data": data}\<close>, so that what follows reads an object without \<open>event\<close> field:
  the record is not a terminal success event, the error test raises nothing and holds only
  by the event type of the record, the identifiers stay as they are, and the loop passes
  over the record unless its event type is \<open>error\<close>. Any other exception of
  \<open>json.loads\<close> leaves \<open>parse_data\<close>.
\<close>

theorem parse_data_outcomes:
  "(\<forall>v. loads (data ev) = Value v \<longrightarrow> parse_data loads ev = Inr v)
   \<and> (loads (data ev) = JSONDecodeError \<longrightarrow>
        parse_data loads ev = Inr (JObj [(py ''raw_data'', JStr (data ev))])
        \<and> \<not> is_workflow_finished_event loads ev
        \<and> is_error_event loads ev = Inr (event ev = py ''error'')
        \<and> update_ids loads ev ids = ids
        \<and> process_event loads ev w t =
            (if event ev = py ''error''
             then Yielded (Dumps (create_error_response
                    (JStr (py ''Unknown error from Dify API'')) w t))
             else Consumed))
   \<and> (\<forall>m. loads (data ev) = OtherError m \<longrightarrow> parse_data loads ev = Inl (LoadsError m))"
  by (simp add: parse_data_def is_workflow_finished_event_def is_error_event_def
      update_ids_def process_event_def error_msg_of_def attempt_def try_get_def)

theorem parse_data_outcomes_witness:
  "json_loads (py ''not json'') = JSONDecodeError
   \<and> parse_data json_loads \<lparr>event = py ''message'', data = py ''not json''\<rparr> =
       Inr (JObj [(py ''raw_data'', JStr (py ''not json''))])
   \<and> process_event json_loads \<lparr>event = py ''message'', data = py ''not json''\<rparr> JNull JNull =
       Consumed"
proof -
  have h: "json_loads (data \<lparr>event = py ''message'', data = py ''not json''\<rparr>) = JSONDecodeError"
    by code_simp
  from parse_data_outcomes
         [of json_loads "\<lparr>event = py ''message'', data = py ''not json''\<rparr>" _ JNull JNull] h
  show ?thesis by simp
qed

subsection \<open>The terminal success event\<close>

text \<open>
  C2. A record is classified as the terminal success event exactly when its data decodes
  to an object whose \<open>event\<close> field is the text \<open>workflow_finished\<close>; the event type of
  the record plays no part in this, so two records with the same data are classified alike.
\<close>

theorem workflow_finished_by_envelope:
  "is_workflow_finished_event loads \<lparr>event = t, data = d\<rparr> =
     (case loads d of
        Value (JObj kvs) \<Rightarrow> map_of kvs (py ''event'') = Some (JStr (py ''workflow_finished''))
      | _ \<Rightarrow> False)
   \<and> is_workflow_finished_event loads \<lparr>event = t, data = d\<rparr> =
     is_workflow_finished_event loads \<lparr>event = t', data = d\<rparr>"
proof (cases "loads d")
  case (Value v)
  then show ?thesis
    by (cases v) (simp_all add: is_workflow_finished_event_def parse_data_def split: option.splits)
qed (simp_all add: is_workflow_finished_event_def parse_data_def)

subsection \<open>Result extraction\<close>

lemma strip_Nil [simp]: "strip [] = []"
  by (simp add: strip_def)

lemma py_get_dict: "py_get (JObj kvs) k d = Inr (dict_get kvs k d)"
  by (simp add: dict_get_def)

lemma try_get_dict: "try_get (JObj kvs) k d = Some (dict_get kvs k d)"
  by (simp add: try_get_def attempt_def dict_get_def)

lemma workflow_finished_decodes:
  "is_workflow_finished_event loads ev \<Longrightarrow>
   \<exists>env. loads (data ev) = Value (JObj env)
        \<and> map_of env (py ''event'') = Some (JStr (py ''workflow_finished''))"
proof -
  assume fin: "is_workflow_finished_event loads ev"
  show ?thesis
  proof (cases "loads (data ev)")
    case (Value v)
    with fin show ?thesis
      by (cases v) (auto simp: is_workflow_finished_event_def parse_data_def split: option.splits)
  next
    case JSONDecodeError
    with fin show ?thesis by (simp add: is_workflow_finished_event_def parse_data_def)
  next
    case (OtherError m)
    with fin show ?thesis by (simp add: is_workflow_finished_event_def parse_data_def)
  qed
qed

lemma extract_decoded:
  "loads (data ev) = Value (JObj env) \<Longrightarrow>
   extract_workflow_result loads ev =
     (case dict_get env (py ''data'') (JObj []) of
        JObj dat \<Rightarrow>
          (case dict_get dat (py ''outputs'') (JObj []) of
             JObj outs \<Rightarrow>
               map_option (simplified_result env dat)
                 (parse_result loads (dict_get outs (py ''result'') (JStr [])))
           | _ \<Rightarrow> None)
      | _ \<Rightarrow> None)"
proof -
  assume env: "loads (data ev) = Value (JObj env)"
  have pd: "attempt (parse_data loads ev) = Some (JObj env)"
    by (simp add: parse_data_def env attempt_def)
  show ?thesis
  proof (cases "dict_get env (py ''data'') (JObj [])")
    case (JObj dat)
    show ?thesis
    proof (cases "dict_get dat (py ''outputs'') (JObj [])")
      case outs: (JObj outs)
      show ?thesis
        unfolding extract_workflow_result_def
        by (simp only: pd bind.bind_lunit try_get_dict JObj outs json.case)
           (cases "parse_result loads (dict_get outs (py ''result'') (JStr []))";
            simp add: simplified_result_def)
    qed (simp_all only: extract_workflow_result_def pd bind.bind_lunit try_get_dict JObj
         json.case, simp_all add: try_get_def attempt_def)
  qed (simp_all only: extract_workflow_result_def pd bind.bind_lunit try_get_dict json.case,
       simp_all add: try_get_def attempt_def)
qed

text \<open>
  The claim C3 as stated fails, on three terminal success records. With the empty text
  as result, which \<open>json_loads\<close> does not decode, the result is \<open>null\<close> and not the
  wrapper \<open>{"text": ""}\<close>. With \<open>outputs\<close> present and \<open>null\<close>, and with a result of
  4301 digits, on which the second decode raises \<open>ValueError\<close>, the extraction answers
  \<open>None\<close> and the record gives no output at all.
\<close>

theorem extract_workflow_result_counterexample:
  \<open>json_loads (py '''') = JSONDecodeError
   \<and> is_workflow_finished_event json_loads
        \<lparr>event = py ''message'',
         data = py ''{"event":"workflow_finished","data":{"outputs":{"result":""}}}''\<rparr>
   \<and> extract_workflow_result json_loads
        \<lparr>event = py ''message'',
         data = py ''{"event":"workflow_finished","data":{"outputs":{"result":""}}}''\<rparr> =
       Some (JObj
         [(py ''workflow_run_id'', JStr (py '''')),
          (py ''task_id'', JStr (py '''')),
          (py ''status'', JStr (py ''unknown'')),
          (py ''result'', JNull),
          (py ''event_type'', JStr (py ''workflow_finished''))])
   \<and> is_workflow_finished_event json_loads
        \<lparr>event = py ''message'',
         data = py ''{"event":"workflow_finished","data":{"outputs":null}}''\<rparr>
   \<and> extract_workflow_result json_loads
        \<lparr>event = py ''message'',
         data = py ''{"event":"workflow_finished","data":{"outputs":null}}''\<rparr> = None
   \<and> is_workflow_finished_event json_loads
        \<lparr>event = py ''message'',
         data = py ''{"event":"workflow_finished","data":{"outputs":{"result":"'' @
                replicate 4301 49 @ py ''"}}}''\<rparr>
   \<and> extract_workflow_result json_loads
        \<lparr>event = py ''message'',
         data = py ''{"event":"workflow_finished","data":{"outputs":{"result":"'' @
                replicate 4301 49 @ py ''"}}}''\<rparr> = None\<close>
proof -
  let ?ev = \<open>\<lparr>event = py ''message'',
         data = py ''{"event":"workflow_finished","data":{"outputs":{"result":"'' @
                replicate 4301 49 @ py ''"}}}''\<rparr>\<close>
  let ?env = "[(py ''event'', JStr (py ''workflow_finished'')),
      (py ''data'', JObj [(py ''outputs'', JObj [(py ''result'', JStr (replicate 4301 49))])])]"
  have small: \<open>json_loads (py '''') = JSONDecodeError
   \<and> is_workflow_finished_event json_loads
        \<lparr>event = py ''message'',
         data = py ''{"event":"workflow_finished","data":{"outputs":{"result":""}}}''\<rparr>
   \<and> extract_workflow_result json_loads
        \<lparr>event = py ''message'',
         data = py ''{"event":"workflow_finished","data":{"outputs":{"result":""}}}''\<rparr> =
       Some (JObj
         [(py ''workflow_run_id'', JStr (py '''')),
          (py ''task_id'', JStr (py '''')),
          (py ''status'', JStr (py ''unknown'')),
          (py ''result'', JNull),
          (py ''event_type'', JStr (py ''workflow_finished''))])
   \<and> is_workflow_finished_event json_loads
        \<lparr>event = py ''message'',
         data = py ''{"event":"workflow_finished","data":{"outputs":null}}''\<rparr>
   \<and> extract_workflow_result json_loads
        \<lparr>event = py ''message'',
         data = py ''{"event":"workflow_finished","data":{"outputs":null}}''\<rparr> = None\<close>
    by code_simp
  have env: "json_loads (data ?ev) = Value (JObj ?env)"
    using json_loads_long_result[of 4301] by simp
  have fin: "is_workflow_finished_event json_loads ?ev"
    unfolding is_workflow_finished_event_def parse_data_def env by simp
  have second: "json_loads (replicate 4301 49) = OtherError (digits_limit_message 4301)"
    by (rule json_loads_ones) simp
  have "extract_workflow_result json_loads ?ev = None"
    unfolding extract_decoded[of json_loads ?ev ?env, OF env]
    by (simp add: dict_get_def parse_result_def strip_ones second)
  with small fin show ?thesis by blast
qed

text \<open>
  C3, amended. For every terminal success record the data decodes to an object. When
  its \<open>data\<close> and the \<open>outputs\<close> in it are objects or absent, the \<open>result\<close> of the
  extracted output is: for a text that is not empty after stripping, the value of its
  second decode, or the wrapper \<open>{"text": text}\<close> when that decode raises
  \<open>JSONDecodeError\<close>, while any other exception of the second decode leaves the record
  without extracted output; \<open>null\<close> for the empty text and when \<open>result\<close> is absent;
  the value itself for a value that is not a text and is true in a test or \<open>null\<close>. When
  \<open>data\<close> or \<open>outputs\<close> is present and not an object the record is left without
  extracted output. The other fields of the output are the identifiers and the status of
  the envelope with their defaults. Nothing is said of a text of white space only, nor of
  a value that is not a text and false in a test.
\<close>

theorem extract_workflow_result_result_field:
  assumes fin: "is_workflow_finished_event loads ev"
  shows "\<exists>env. loads (data ev) = Value (JObj env) \<and>
    (case dict_get env (py ''data'') (JObj []) of
       JObj dat \<Rightarrow>
         (case dict_get dat (py ''outputs'') (JObj []) of
            JObj outs \<Rightarrow>
              (case map_of outs (py ''result'') of
                 None \<Rightarrow>
                   extract_workflow_result loads ev = Some (simplified_result env dat JNull)
               | Some (JStr s) \<Rightarrow>
                   if strip s \<noteq> [] then
                     (case loads s of
                        Value v \<Rightarrow>
                          extract_workflow_result loads ev = Some (simplified_result env dat v)
                      | JSONDecodeError \<Rightarrow>
                          extract_workflow_result loads ev =
                            Some (simplified_result env dat (JObj [(py ''text'', JStr s)]))
                      | OtherError m \<Rightarrow> extract_workflow_result loads ev = None)
                   else
                     (s = [] \<longrightarrow>
                        extract_workflow_result loads ev = Some (simplified_result env dat JNull))
               | Some v \<Rightarrow>
                   (truthy v \<or> v = JNull \<longrightarrow>
                      extract_workflow_result loads ev = Some (simplified_result env dat v)))
          | _ \<Rightarrow> extract_workflow_result loads ev = None)
     | _ \<Rightarrow> extract_workflow_result loads ev = None)"
proof -
  from workflow_finished_decodes[OF fin] obtain env where
    env: "loads (data ev) = Value (JObj env)" by blast
  show ?thesis
    by (rule exI[where x = env])
       (auto simp: env extract_decoded[of loads ev env, OF env] dict_get_def parse_result_def
          split: json.splits option.splits decoded.splits)
qed

theorem extract_workflow_result_result_field_witness:
  \<open>extract_workflow_result json_loads
      \<lparr>event = py ''message'',
       data = py ''{"event":"workflow_finished","task_id":"t1","data":{"outputs":{"result":"[1, 2]"}}}''\<rparr> =
     Some (JObj
       [(py ''workflow_run_id'', JStr (py '''')),
        (py ''task_id'', JStr (py ''t1'')),
        (py ''status'', JStr (py ''unknown'')),
        (py ''result'', JArr [JInt 1, JInt 2]),
        (py ''event_type'', JStr (py ''workflow_finished''))])\<close>
proof -
  let ?ev = \<open>\<lparr>event = py ''message'',
       data = py ''{"event":"workflow_finished","task_id":"t1","data":{"outputs":{"result":"[1, 2]"}}}''\<rparr>\<close>
  let ?outs = "[(py ''result'', JStr (py ''[1, 2]''))]"
  let ?dat = "[(py ''outputs'', JObj ?outs)]"
  let ?env = "[(py ''event'', JStr (py ''workflow_finished'')), (py ''task_id'', JStr (py ''t1'')),
               (py ''data'', JObj ?dat)]"
  have fin: "is_workflow_finished_event json_loads ?ev" by code_simp
  have env: "json_loads (data ?ev) = Value (JObj ?env)" by code_simp
  have s: "strip (py ''[1, 2]'') \<noteq> []" by code_simp
  have l: "json_loads (py ''[1, 2]'') = Value (JArr [JInt 1, JInt 2])" by code_simp
  from extract_workflow_result_result_field[of json_loads ?ev, OF fin] obtain env' where
    e: "json_loads (data ?ev) = Value (JObj env')"
    and c: "(case dict_get env' (py ''data'') (JObj []) of
       JObj dat \<Rightarrow>
         (case dict_get dat (py ''outputs'') (JObj []) of
            JObj outs \<Rightarrow>
              (case map_of outs (py ''result'') of
                 None \<Rightarrow>
                   extract_workflow_result json_loads ?ev = Some (simplified_result env' dat JNull)
               | Some (JStr s) \<Rightarrow>
                   if strip s \<noteq> [] then
                     (case json_loads s of
                        Value v \<Rightarrow>
                          extract_workflow_result json_loads ?ev = Some (simplified_result env' dat v)
                      | JSONDecodeError \<Rightarrow>
                          extract_workflow_result json_loads ?ev =
                            Some (simplified_result env' dat (JObj [(py ''text'', JStr s)]))
                      | OtherError m \<Rightarrow> extract_workflow_result json_loads ?ev = None)
                   else
                     (s = [] \<longrightarrow>
                        extract_workflow_result json_loads ?ev = Some (simplified_result env' dat JNull))
               | Some v \<Rightarrow>
                   (truthy v \<or> v = JNull \<longrightarrow>
                      extract_workflow_result json_loads ?ev = Some (simplified_result env' dat v)))
          | _ \<Rightarrow> extract_workflow_result json_loads ?ev = None)
     | _ \<Rightarrow> extract_workflow_result json_loads ?ev = None)"
    by blast
  from e env have "env' = ?env" by simp
  with c s l show ?thesis
    by (simp add: dict_get_def simplified_result_def)
qed

subsection \<open>Yields of the loop\<close>

lemma outputs_append: "outputs (xs @ ys) = outputs xs @ outputs ys"
  by (induction xs rule: outputs.induct) simp_all

lemma is_error_result_create: "is_error_result (Dumps (create_error_response m w t))"
  by (simp add: is_error_result_def create_error_response_def)

lemma extract_is_simplified:
  "extract_workflow_result loads ev = Some r \<Longrightarrow> is_simplified_result (DumpsUnicode r)"
  by (auto simp: extract_workflow_result_def is_simplified_result_def
      split: Option.bind_splits)

lemma process_event_yielded:
  "process_event loads ev w t = Yielded y \<Longrightarrow> is_simplified_result y \<or> is_error_result y"
  by (auto simp: process_event_def is_error_result_create extract_is_simplified
      split: sum.splits if_splits option.splits)

lemma consume_outputs:
  "if snd (snd (consume loads fired i fr ls)) = Returned
   then (\<exists>y. outputs (fst (consume loads fired i fr ls)) = [y]
              \<and> (is_simplified_result y \<or> is_error_result y))
   else outputs (fst (consume loads fired i fr ls)) = []"
proof (induction ls arbitrary: i fr)
  case Nil
  show ?case by simp
next
  case (Cons l ls)
  obtain self wid tid where fr: "fr = (self, wid, tid)" by (cases fr)
  show ?case
  proof (cases "fst (parse_sse_line self l)")
    case None
    with Cons.IH[of "Suc i" "(snd (parse_sse_line self l), wid, tid)"] fr show ?thesis
      by (simp add: Let_def outputs_append)
  next
    case (Some ev)
    let ?ids = "update_ids loads ev (wid, tid)"
    show ?thesis
    proof (cases "process_event loads ev (fst ?ids) (snd ?ids)")
      case Discarded
      with Cons.IH[of "Suc i" "(snd (parse_sse_line self l), ?ids)"] fr Some show ?thesis
        by (simp add: Let_def outputs_append)
    next
      case (Yielded y)
      with process_event_yielded[OF Yielded] fr Some show ?thesis
        by (simp add: Let_def outputs_append)
    next
      case (Raised e)
      with fr Some show ?thesis by (simp add: Let_def)
    next
      case Consumed
      with Cons.IH[of "Suc i" "(snd (parse_sse_line self l), ?ids)"] fr Some show ?thesis
        by (simp add: Let_def outputs_append)
    qed
  qed
qed

subsection \<open>The loop, line by line\<close>

text \<open>
  While no line ends the invocation, the loop over a sequence of lines followed by more
  lines is the loop over the first followed by the loop over the rest; the identifiers it
  holds are those of the records read, the latest mention winning, and the state of the
  parser is that of the line parser alone.
\<close>

lemma consume_drained_append:
  "snd (snd (consume loads fired i fr pre)) = Drained \<Longrightarrow>
   consume loads fired i fr (pre @ rest) =
     (fst (consume loads fired i fr pre)
        @ fst (consume loads fired (i + length pre) (fst (snd (consume loads fired i fr pre))) rest),
      snd (consume loads fired (i + length pre) (fst (snd (consume loads fired i fr pre))) rest))"
proof (induction pre arbitrary: i fr)
  case Nil
  show ?case by simp
next
  case (Cons l ls)
  obtain self wid tid where fr: "fr = (self, wid, tid)" by (cases fr)
  show ?case
  proof (cases "fst (parse_sse_line self l)")
    case None
    with Cons.prems fr
    have "snd (snd (consume loads fired (Suc i) (snd (parse_sse_line self l), wid, tid) ls)) = Drained"
      by (simp add: Let_def)
    from Cons.IH[OF this] None fr show ?thesis by (simp add: Let_def)
  next
    case (Some ev)
    let ?ids = "update_ids loads ev (wid, tid)"
    show ?thesis
    proof (cases "process_event loads ev (fst ?ids) (snd ?ids)")
      case Discarded
      with Cons.prems fr Some
      have "snd (snd (consume loads fired (Suc i) (snd (parse_sse_line self l), ?ids) ls)) = Drained"
        by (simp add: Let_def)
      from Cons.IH[OF this] Some fr Discarded show ?thesis by (simp add: Let_def)
    next
      case (Yielded y)
      with Cons.prems fr Some show ?thesis by (simp add: Let_def)
    next
      case (Raised e)
      with Cons.prems fr Some show ?thesis by (simp add: Let_def)
    next
      case Consumed
      with Cons.prems fr Some
      have "snd (snd (consume loads fired (Suc i) (snd (parse_sse_line self l), ?ids) ls)) = Drained"
        by (simp add: Let_def)
      from Cons.IH[OF this] Some fr Consumed show ?thesis by (simp add: Let_def)
    qed
  qed
qed

lemma consume_drained_frame:
  "snd (snd (consume loads fired i (self, ids) ls)) = Drained \<Longrightarrow>
   snd (fst (snd (consume loads fired i (self, ids) ls))) =
     foldl (\<lambda>ids ev. update_ids loads ev ids) ids (records self ls)
   \<and> outputs (fst (consume loads fired i (self, ids) ls)) = []"
proof (induction ls arbitrary: i self ids)
  case Nil
  show ?case by simp
next
  case (Cons l ls)
  obtain wid tid where ids: "ids = (wid, tid)" by (cases ids)
  show ?case
  proof (cases "fst (parse_sse_line self l)")
    case None
    with Cons.prems ids
    have "snd (snd (consume loads fired (Suc i) (snd (parse_sse_line self l), ids) ls)) = Drained"
      by (simp add: Let_def)
    from Cons.IH[OF this] None ids show ?thesis by (simp add: Let_def outputs_append)
  next
    case (Some ev)
    let ?ids = "update_ids loads ev (wid, tid)"
    show ?thesis
    proof (cases "process_event loads ev (fst ?ids) (snd ?ids)")
      case Discarded
      with Cons.prems ids Some
      have "snd (snd (consume loads fired (Suc i) (snd (parse_sse_line self l), ?ids) ls)) = Drained"
        by (simp add: Let_def)
      from Cons.IH[OF this] Some ids Discarded show ?thesis
        by (simp add: Let_def outputs_append)
    next
      case (Yielded y)
      with Cons.prems ids Some show ?thesis by (simp add: Let_def)
    next
      case (Raised e)
      with Cons.prems ids Some show ?thesis by (simp add: Let_def)
    next
      case Consumed
      with Cons.prems ids Some
      have "snd (snd (consume loads fired (Suc i) (snd (parse_sse_line self l), ?ids) ls)) = Drained"
        by (simp add: Let_def)
      from Cons.IH[OF this] Some ids Consumed show ?thesis
        by (simp add: Let_def outputs_append)
    qed
  qed
qed

lemma records_append:
  "records self (xs @ ys) = records self xs @ records (parser_state self xs) ys"
  by (induction xs arbitrary: self) (simp_all split: option.splits)

lemma consume_drained_parser:
  "snd (snd (consume loads fired i (self, ids) ls)) = Drained \<Longrightarrow>
   fst (fst (snd (consume loads fired i (self, ids) ls))) = parser_state self ls"
proof (induction ls arbitrary: i self ids)
  case Nil
  show ?case by simp
next
  case (Cons l ls)
  obtain wid tid where ids: "ids = (wid, tid)" by (cases ids)
  show ?case
  proof (cases "fst (parse_sse_line self l)")
    case None
    with Cons.prems ids
    have "snd (snd (consume loads fired (Suc i) (snd (parse_sse_line self l), ids) ls)) = Drained"
      by (simp add: Let_def)
    from Cons.IH[OF this] None ids show ?thesis by (simp add: Let_def)
  next
    case (Some ev)
    let ?ids = "update_ids loads ev (wid, tid)"
    show ?thesis
    proof (cases "process_event loads ev (fst ?ids) (snd ?ids)")
      case Discarded
      with Cons.prems ids Some
      have "snd (snd (consume loads fired (Suc i) (snd (parse_sse_line self l), ?ids) ls)) = Drained"
        by (simp add: Let_def)
      from Cons.IH[OF this] Some ids Discarded show ?thesis by (simp add: Let_def)
    next
      case (Yielded y)
      with Cons.prems ids Some show ?thesis by (simp add: Let_def)
    next
      case (Raised e)
      with Cons.prems ids Some show ?thesis by (simp add: Let_def)
    next
      case Consumed
      with Cons.prems ids Some
      have "snd (snd (consume loads fired (Suc i) (snd (parse_sse_line self l), ?ids) ls)) = Drained"
        by (simp add: Let_def)
      from Cons.IH[OF this] Some ids Consumed show ?thesis by (simp add: Let_def)
    qed
  qed
qed

lemma process_event_error_envelope:
  assumes env: "loads (data ev) = Value (JObj env)"
    and err: "map_of env (py ''event'') = Some (JStr (py ''error''))"
    and dat: "py_get (JObj env) (py ''data'') (JObj []) = Inr (JObj dat)"
  shows "process_event loads ev w t =
     Yielded (Dumps (create_error_response
        (case map_of dat (py ''error'') of
           Some m \<Rightarrow> m
         | None \<Rightarrow> JStr (py ''Unknown error from Dify API'')) w t))"
proof -
  have pd: "parse_data loads ev = Inr (JObj env)" by (simp add: parse_data_def env)
  have ie: "is_error_event loads ev = Inr True"
    using err by (simp add: is_error_event_def pd)
  have d: "try_get (JObj env) (py ''data'') (JObj []) = Some (JObj dat)"
    using dat by (simp add: try_get_def attempt_def)
  have a: "attempt (parse_data loads ev) = Some (JObj env)"
    by (simp add: pd attempt_def)
  have em: "error_msg_of loads ev =
      Some (case map_of dat (py ''error'') of
           Some m \<Rightarrow> m
         | None \<Rightarrow> JStr (py ''Unknown error from Dify API''))"
    unfolding error_msg_of_def
    by (simp only: a d bind.bind_lunit) (simp add: try_get_def attempt_def split: option.splits)
  show ?thesis by (simp add: process_event_def ie em)
qed

subsection \<open>The error record\<close>

text \<open>
  The claim C4 as stated fails. A record whose data decodes to an object with \<open>event\<close>
  equal to \<open>error\<close> and whose \<open>data\<close> field is a text, not an object, is handled by the
  \<open>except\<close> of the error branch: nothing is yielded for it and the loop goes on. Alone in
  the stream, it leaves the stream to end with the message of exhaustion; followed by a
  terminal success record, it leaves that record to be the output.
\<close>

theorem error_envelope_counterexample:
  \<open>json_loads (py ''{"event":"error","data":"boom"}'') =
     Value (JObj [(py ''event'', JStr (py ''error'')), (py ''data'', JStr (py ''boom''))])
   \<and> outputs (fst (process_dify_stream json_loads {} None
        [py ''data: {"event":"error","data":"boom"}''] Exhausted)) =
       [Dumps (JObj
          [(py ''workflow_run_id'', JStr (py ''unknown'')),
           (py ''task_id'', JStr (py ''unknown'')),
           (py ''status'', JStr (py ''error'')),
           (py ''error'', JStr (py ''Stream ended without workflow completion'')),
           (py ''event_type'', JStr (py ''error''))])]
   \<and> outputs (fst (process_dify_stream json_loads {} None
        [py ''data: {"event":"error","data":"boom"}'',
         py ''data: {"event":"workflow_finished","data":{"status":"succeeded"}}''] Exhausted)) =
       [DumpsUnicode (JObj
          [(py ''workflow_run_id'', JStr (py '''')),
           (py ''task_id'', JStr (py '''')),
           (py ''status'', JStr (py ''succeeded'')),
           (py ''result'', JNull),
           (py ''event_type'', JStr (py ''workflow_finished''))])]\<close>
  by code_simp

text \<open>
  C4, amended. Let the lines before a line be consumed without ending the invocation, and
  let that line produce a record whose data decodes to an object with \<open>event\<close> equal to
  \<open>error\<close> and with \<open>data\<close> absent or an object. Then the invocation yields exactly one
  text, the error result whose \<open>error\<close> field is \<open>data.error\<close>, or
  \<open>Unknown error from Dify API\<close> when that is absent, and whose identifiers are the
  values last mentioned by the records up to and including this one, each replaced by
  \<open>unknown\<close> when it was never mentioned or is false in a test. The result is the same
  for every continuation of the stream: no later line is read.
\<close>

theorem error_envelope_ends_stream:
  assumes reach: "snd (snd (consume loads fired 0 (self, JNull, JNull) pre)) = Drained"
    and rec: "records self (pre @ [l]) = records self pre @ [ev]"
    and env: "loads (data ev) = Value (JObj env)"
    and err: "map_of env (py ''event'') = Some (JStr (py ''error''))"
    and dat: "py_get (JObj env) (py ''data'') (JObj []) = Inr (JObj dat)"
    and ids: "foldl (\<lambda>ids ev. update_ids loads ev ids) (JNull, JNull) (records self (pre @ [l])) = (w, t)"
  shows "outputs (fst (process_dify_stream loads fired self (pre @ l # post) upstream)) =
     [Dumps (JObj
        [(py ''workflow_run_id'', if truthy w then w else JStr (py ''unknown'')),
         (py ''task_id'', if truthy t then t else JStr (py ''unknown'')),
         (py ''status'', JStr (py ''error'')),
         (py ''error'',
            case map_of dat (py ''error'') of
              Some m \<Rightarrow> m
            | None \<Rightarrow> JStr (py ''Unknown error from Dify API'')),
         (py ''event_type'', JStr (py ''error''))])]"
proof -
  let ?c = "consume loads fired 0 (self, JNull, JNull) pre"
  let ?self' = "parser_state self pre"
  let ?ids = "foldl (\<lambda>ids ev. update_ids loads ev ids) (JNull, JNull) (records self pre)"
  have fr: "fst (snd ?c) = (?self', ?ids)"
    using consume_drained_parser[OF reach] consume_drained_frame[OF reach]
    by (simp add: prod_eq_iff)
  have out: "outputs (fst ?c) = []"
    using consume_drained_frame[OF reach] by simp
  from rec have "records ?self' [l] = [ev]"
    by (simp add: records_append)
  then have pl: "fst (parse_sse_line ?self' l) = Some ev"
    by (simp split: option.splits)
  from ids rec have wt: "update_ids loads ev ?ids = (w, t)"
    by simp
  have pe: "process_event loads ev w t =
     Yielded (Dumps (create_error_response
        (case map_of dat (py ''error'') of
           Some m \<Rightarrow> m
         | None \<Rightarrow> JStr (py ''Unknown error from Dify API'')) w t))"
    using env err dat by (rule process_event_error_envelope)
  obtain wid tid where wid: "?ids = (wid, tid)" by (cases ?ids)
  have step: "consume loads fired (0 + length pre) (?self', ?ids) (l # post) =
     ((if length pre \<in> fired then [KeepaliveDone] else [CancelKeepalive]) @
        [Yield (Dumps (create_error_response
        (case map_of dat (py ''error'') of
           Some m \<Rightarrow> m
         | None \<Rightarrow> JStr (py ''Unknown error from Dify API'')) w t))],
      (snd (parse_sse_line ?self' l), (w, t)), Returned)"
    unfolding wid using pl wt pe by (simp add: Let_def wid)
  have "consume loads fired 0 (self, JNull, JNull) (pre @ l # post) =
     (fst ?c @ (if length pre \<in> fired then [KeepaliveDone] else [CancelKeepalive]) @
        [Yield (Dumps (create_error_response
        (case map_of dat (py ''error'') of
           Some m \<Rightarrow> m
         | None \<Rightarrow> JStr (py ''Unknown error from Dify API'')) w t))],
      (snd (parse_sse_line ?self' l), (w, t)), Returned)"
    unfolding consume_drained_append[OF reach] fr step by simp
  then show ?thesis
    unfolding process_dify_stream_def
    by (simp add: outputs_append out create_error_response_def)
qed

theorem error_envelope_ends_stream_witness:
  \<open>outputs (fst (process_dify_stream json_loads {} None
      ([py ''data: {"workflow_run_id":"r1","event":"node_started"}''] @
       py ''data: {"event":"error","task_id":"t1","data":{"error":"boom"}}'' #
       [py ''data: {"event":"workflow_finished"}'']) Exhausted)) =
     [Dumps (JObj
        [(py ''workflow_run_id'', JStr (py ''r1'')),
         (py ''task_id'', JStr (py ''t1'')),
         (py ''status'', JStr (py ''error'')),
         (py ''error'', JStr (py ''boom'')),
         (py ''event_type'', JStr (py ''error''))])]\<close>
proof -
  let ?pre = \<open>[py ''data: {"workflow_run_id":"r1","event":"node_started"}'']\<close>
  let ?l = \<open>py ''data: {"event":"error","task_id":"t1","data":{"error":"boom"}}''\<close>
  let ?ev = \<open>\<lparr>event = py ''message'',
              data = py ''{"event":"error","task_id":"t1","data":{"error":"boom"}}''\<rparr>\<close>
  let ?dat = "[(py ''error'', JStr (py ''boom''))]"
  let ?env = "[(py ''event'', JStr (py ''error'')), (py ''task_id'', JStr (py ''t1'')),
               (py ''data'', JObj ?dat)]"
  have reach: "snd (snd (consume json_loads {} 0 (None, JNull, JNull) ?pre)) = Drained"
    by code_simp
  have rec: "records None (?pre @ [?l]) = records None ?pre @ [?ev]"
    by code_simp
  have env: "json_loads (data ?ev) = Value (JObj ?env)"
    by code_simp
  have err: "map_of ?env (py ''event'') = Some (JStr (py ''error''))"
    by code_simp
  have dat: "py_get (JObj ?env) (py ''data'') (JObj []) = Inr (JObj ?dat)"
    by code_simp
  have ids: "foldl (\<lambda>ids ev. update_ids json_loads ev ids) (JNull, JNull)
               (records None (?pre @ [?l])) = (JStr (py ''r1''), JStr (py ''t1''))"
    by code_simp
  from error_envelope_ends_stream
         [of json_loads "{}" None ?pre ?l ?ev ?env ?dat "JStr (py ''r1'')" "JStr (py ''t1'')"
             \<open>[py ''data: {"event":"workflow_finished"}'']\<close> Exhausted,
          OF reach rec env err dat ids]
  show ?thesis by simp
qed

subsection \<open>The end of the stream\<close>

text \<open>
  The claim C5 as stated fails on an identifier that was observed and is the empty text:
  the error result carries \<open>unknown\<close> in its place.
\<close>

theorem stream_ended_ids_counterexample:
  \<open>records None [py ''data: {"workflow_run_id":""}''] =
     [\<lparr>event = py ''message'', data = py ''{"workflow_run_id":""}''\<rparr>]
   \<and> update_ids json_loads \<lparr>event = py ''message'', data = py ''{"workflow_run_id":""}''\<rparr>
        (JNull, JNull) = (JStr (py ''''), JNull)
   \<and> outputs (fst (process_dify_stream json_loads {} None
        [py ''data: {"workflow_run_id":""}''] Exhausted)) =
       [Dumps (JObj
          [(py ''workflow_run_id'', JStr (py ''unknown'')),
           (py ''task_id'', JStr (py ''unknown'')),
           (py ''status'', JStr (py ''error'')),
           (py ''error'', JStr (py ''Stream ended without workflow completion'')),
           (py ''event_type'', JStr (py ''error''))])]\<close>
  by code_simp

text \<open>
  C5, amended. When the loop consumes every line without returning or raising and the
  upstream is then exhausted, the invocation yields exactly one text, the error result
  with the message \<open>Stream ended without workflow completion\<close>; its identifiers are the
  values last mentioned by the records of the stream, each replaced by \<open>unknown\<close> when
  it was never mentioned or is false in a test (empty text, \<open>null\<close>, zero).
\<close>

theorem stream_ended_error:
  assumes "snd (snd (consume loads fired 0 (self, JNull, JNull) sse_lines)) = Drained"
    and "foldl (\<lambda>ids ev. update_ids loads ev ids) (JNull, JNull) (records self sse_lines) = (w, t)"
  shows "outputs (fst (process_dify_stream loads fired self sse_lines Exhausted)) =
     [Dumps (JObj
        [(py ''workflow_run_id'', if truthy w then w else JStr (py ''unknown'')),
         (py ''task_id'', if truthy t then t else JStr (py ''unknown'')),
         (py ''status'', JStr (py ''error'')),
         (py ''error'', JStr (py ''Stream ended without workflow completion'')),
         (py ''event_type'', JStr (py ''error''))])]"
proof -
  obtain acts self' wid tid r where
    c: "consume loads fired 0 (self, JNull, JNull) sse_lines = (acts, (self', wid, tid), r)"
    by (metis prod_cases3)
  from consume_drained_frame[OF assms(1)] assms c
  have "r = Drained" "wid = w" "tid = t" "outputs acts = []" by simp_all
  then show ?thesis
    unfolding process_dify_stream_def c
    by (simp add: outputs_append create_error_response_def)
qed

theorem stream_ended_error_witness:
  \<open>outputs (fst (process_dify_stream json_loads {} None
      [py ''data: {"workflow_run_id":"r1","event":"node_started"}'',
       py ''event: ping'',
       py ''data: {"task_id":"t1"}''] Exhausted)) =
     [Dumps (JObj
        [(py ''workflow_run_id'', JStr (py ''r1'')),
         (py ''task_id'', JStr (py ''t1'')),
         (py ''status'', JStr (py ''error'')),
         (py ''error'', JStr (py ''Stream ended without workflow completion'')),
         (py ''event_type'', JStr (py ''error''))])]\<close>
proof -
  let ?ls = \<open>[py ''data: {"workflow_run_id":"r1","event":"node_started"}'',
       py ''event: ping'',
       py ''data: {"task_id":"t1"}'']\<close>
  have h1: "snd (snd (consume json_loads {} 0 (None, JNull, JNull) ?ls)) = Drained"
    by code_simp
  have h2: "foldl (\<lambda>ids ev. update_ids json_loads ev ids) (JNull, JNull) (records None ?ls) =
      (JStr (py ''r1''), JStr (py ''t1''))"
    by code_simp
  from stream_ended_error[of json_loads "{}" None ?ls, OF h1 h2] show ?thesis by simp
qed

subsection \<open>Records that are not objects\<close>

text \<open>
  C7, the code at a failing input. The data \<open>5\<close> is valid JSON and decodes to a number.
  The metadata block ignores it, but the error test that follows calls \<open>.get\<close> on it
  outside every inner \<open>try\<close>: the \<open>AttributeError\<close> reaches the outer handler, and the
  invocation ends with an error result. The terminal success record behind it, which alone
  gives a simplified result, is never read.
\<close>

theorem non_object_record_is_fatal:
  \<open>json_loads (py ''5'') = Value (JInt 5)
   \<and> outputs (fst (process_dify_stream json_loads {} None
        [py ''data: 5'',
         py ''data: {"event":"workflow_finished","data":{"status":"succeeded"}}''] Exhausted)) =
       [Dumps (JObj
          [(py ''workflow_run_id'', JStr (py ''unknown'')),
           (py ''task_id'', JStr (py ''unknown'')),
           (py ''status'', JStr (py ''error'')),
           (py ''error'', JStr (py ''Stream processing error: '' @ [39] @ py ''int'' @ [39] @
              py '' object has no attribute '' @ [39] @ py ''get'' @ [39])),
           (py ''event_type'', JStr (py ''error''))])]
   \<and> outputs (fst (process_dify_stream json_loads {} None
        [py ''data: {"event":"workflow_finished","data":{"status":"succeeded"}}''] Exhausted)) =
       [DumpsUnicode (JObj
          [(py ''workflow_run_id'', JStr (py '''')),
           (py ''task_id'', JStr (py '''')),
           (py ''status'', JStr (py ''succeeded'')),
           (py ''result'', JNull),
           (py ''event_type'', JStr (py ''workflow_finished''))])]\<close>
  by code_simp

subsection \<open>The event type across invocations\<close>

text \<open>
  C8, the code at a failing input. The pending event type is an attribute of the processor
  object, which the application creates once. An invocation whose stream holds the line
  \<open>event: error\<close> leaves the attribute at \<open>error\<close>; in the next invocation a \<open>data:\<close>
  line that no \<open>event:\<close> line precedes gives a record of type \<open>error\<close>, not
  \<open>message\<close>, and the terminal success record is answered with an error result. After an
  invocation that read no \<open>event:\<close> line the same stream gives the simplified result.
\<close>

theorem event_type_leaks_across_invocations:
  \<open>snd (process_dify_stream json_loads {} None [py ''event: error''] Exhausted) = Some (py ''error'')
   \<and> fst (parse_sse_line (Some (py ''error'')) (py ''data: {"event":"workflow_finished"}'')) =
       Some \<lparr>event = py ''error'', data = py ''{"event":"workflow_finished"}''\<rparr>
   \<and> fst (parse_sse_line None (py ''data: {"event":"workflow_finished"}'')) =
       Some \<lparr>event = py ''message'', data = py ''{"event":"workflow_finished"}''\<rparr>
   \<and> outputs (fst (process_dify_stream json_loads {}
        (snd (process_dify_stream json_loads {} None [py ''event: error''] Exhausted))
        [py ''data: {"event":"workflow_finished"}''] Exhausted)) =
       [Dumps (JObj
          [(py ''workflow_run_id'', JStr (py ''unknown'')),
           (py ''task_id'', JStr (py ''unknown'')),
           (py ''status'', JStr (py ''error'')),
           (py ''error'', JStr (py ''Unknown error from Dify API'')),
           (py ''event_type'', JStr (py ''error''))])]
   \<and> outputs (fst (process_dify_stream json_loads {}
        (snd (process_dify_stream json_loads {} None [] Exhausted))
        [py ''data: {"event":"workflow_finished"}''] Exhausted)) =
       [DumpsUnicode (JObj
          [(py ''workflow_run_id'', JStr (py '''')),
           (py ''task_id'', JStr (py '''')),
           (py ''status'', JStr (py ''unknown'')),
           (py ''result'', JNull),
           (py ''event_type'', JStr (py ''workflow_finished''))])]\<close>
  by code_simp

subsection \<open>The loop at a record\<close>

lemma extract_truthy: "extract_workflow_result loads ev = Some r \<Longrightarrow> truthy r"
  by (auto simp: extract_workflow_result_def split: Option.bind_splits)

lemma process_event_success:
  "is_error_event loads ev = Inr False \<Longrightarrow> is_workflow_finished_event loads ev \<Longrightarrow>
   extract_workflow_result loads ev = Some r \<Longrightarrow>
   process_event loads ev w t = Yielded (DumpsUnicode r)"
  by (simp add: process_event_def extract_truthy)

lemma process_event_error:
  "is_error_event loads ev = Inr True \<Longrightarrow> error_msg_of loads ev = Some m \<Longrightarrow>
   process_event loads ev w t = Yielded (Dumps (create_error_response m w t))"
  by (simp add: process_event_def)

lemma process_event_passed:
  "is_error_event loads ev = Inr False \<Longrightarrow>
   (is_workflow_finished_event loads ev \<longrightarrow> extract_workflow_result loads ev = None) \<Longrightarrow>
   process_event loads ev w t = Consumed"
  by (auto simp: process_event_def)

lemma process_event_unicode:
  "process_event loads ev w t = Yielded (DumpsUnicode r) \<Longrightarrow>
   is_workflow_finished_event loads ev \<and> extract_workflow_result loads ev = Some r"
  by (auto simp: process_event_def split: sum.splits if_splits option.splits)

text \<open>What the loop does at a line that is reached and produces a record.\<close>

lemma consume_at_record:
  assumes reach: "snd (snd (consume loads fired 0 (self, JNull, JNull) pre)) = Drained"
    and rec: "records self (pre @ [l]) = records self pre @ [ev]"
    and ids: "foldl (\<lambda>ids ev. update_ids loads ev ids) (JNull, JNull) (records self (pre @ [l])) = (w, t)"
  shows "consume loads fired 0 (self, JNull, JNull) (pre @ l # post) =
     (let cancel = (if length pre \<in> fired then [KeepaliveDone] else [CancelKeepalive]);
          self' = snd (parse_sse_line (parser_state self pre) l);
          r = consume loads fired (Suc (length pre)) (self', w, t) post
      in case process_event loads ev w t of
           Yielded y \<Rightarrow>
             (fst (consume loads fired 0 (self, JNull, JNull) pre) @ cancel @ [Yield y],
              (self', w, t), Returned)
         | Raised e \<Rightarrow>
             (fst (consume loads fired 0 (self, JNull, JNull) pre) @ cancel, (self', w, t), Failed e)
         | Discarded \<Rightarrow>
             (fst (consume loads fired 0 (self, JNull, JNull) pre) @ cancel @ fst r, snd r)
         | Consumed \<Rightarrow>
             (fst (consume loads fired 0 (self, JNull, JNull) pre) @ cancel @ CreateKeepalive # fst r,
              snd r))"
proof -
  let ?c = "consume loads fired 0 (self, JNull, JNull) pre"
  let ?self' = "parser_state self pre"
  let ?ids = "foldl (\<lambda>ids ev. update_ids loads ev ids) (JNull, JNull) (records self pre)"
  have fr: "fst (snd ?c) = (?self', ?ids)"
    using consume_drained_parser[OF reach] consume_drained_frame[OF reach]
    by (simp add: prod_eq_iff)
  from rec have "records ?self' [l] = [ev]"
    by (simp add: records_append)
  then have pl: "fst (parse_sse_line ?self' l) = Some ev"
    by (simp split: option.splits)
  from ids rec have wt: "update_ids loads ev ?ids = (w, t)"
    by simp
  obtain wid tid where wid: "?ids = (wid, tid)" by (cases ?ids)
  have step: "consume loads fired (0 + length pre) (?self', ?ids) (l # post) =
     (let cancel = (if length pre \<in> fired then [KeepaliveDone] else [CancelKeepalive]);
          self' = snd (parse_sse_line ?self' l);
          r = consume loads fired (Suc (length pre)) (self', w, t) post
      in case process_event loads ev w t of
           Yielded y \<Rightarrow> (cancel @ [Yield y], (self', w, t), Returned)
         | Raised e \<Rightarrow> (cancel, (self', w, t), Failed e)
         | Discarded \<Rightarrow> (cancel @ fst r, snd r)
         | Consumed \<Rightarrow> (cancel @ CreateKeepalive # fst r, snd r))"
    unfolding wid using pl wt
    by (cases "process_event loads ev w t") (simp_all add: Let_def wid)
  show ?thesis
    unfolding consume_drained_append[OF reach] fr step
    by (cases "process_event loads ev w t") (simp_all add: Let_def)
qed

lemma outputs_at_record:
  assumes reach: "snd (snd (consume loads fired 0 (self, JNull, JNull) pre)) = Drained"
    and rec: "records self (pre @ [l]) = records self pre @ [ev]"
    and ids: "foldl (\<lambda>ids ev. update_ids loads ev ids) (JNull, JNull) (records self (pre @ [l])) = (w, t)"
    and y: "process_event loads ev w t = Yielded y"
  shows "outputs (fst (process_dify_stream loads fired self (pre @ l # post) upstream)) = [y]"
proof -
  have out: "outputs (fst (consume loads fired 0 (self, JNull, JNull) pre)) = []"
    using consume_drained_frame[OF reach] by simp
  show ?thesis
    unfolding process_dify_stream_def consume_at_record[OF reach rec ids] Let_def y
    by (simp add: outputs_append out)
qed

lemma outputs_drained:
  assumes reach: "snd (snd (consume loads fired 0 (self, JNull, JNull) sse_lines)) = Drained"
    and ids: "foldl (\<lambda>ids ev. update_ids loads ev ids) (JNull, JNull) (records self sse_lines) = (w, t)"
  shows "outputs (fst (process_dify_stream loads fired self sse_lines upstream)) =
     [Dumps (create_error_response
        (JStr (case upstream of
                 Exhausted \<Rightarrow> py ''Stream ended without workflow completion''
               | Raises m \<Rightarrow> py ''Stream processing error: '' @ m)) w t)]"
proof -
  obtain acts self' wid tid r where
    c: "consume loads fired 0 (self, JNull, JNull) sse_lines = (acts, (self', wid, tid), r)"
    by (metis prod_cases3)
  from consume_drained_frame[OF reach] reach ids c
  have "r = Drained" "wid = w" "tid = t" "outputs acts = []" by simp_all
  then show ?thesis
    unfolding process_dify_stream_def c
    by (cases upstream) (simp_all add: outputs_append)
qed

lemma consume_unicode_origin:
  "Yield (DumpsUnicode r) \<in> set (fst (consume loads fired i (self, ids) ls)) \<Longrightarrow>
   \<exists>ev \<in> set (records self ls).
     is_workflow_finished_event loads ev \<and> extract_workflow_result loads ev = Some r"
proof (induction ls arbitrary: i self ids)
  case Nil
  then show ?case by simp
next
  case (Cons l ls)
  obtain wid tid where ids: "ids = (wid, tid)" by (cases ids)
  show ?case
  proof (cases "fst (parse_sse_line self l)")
    case None
    with Cons.prems ids
    have "Yield (DumpsUnicode r) \<in>
        set (fst (consume loads fired (Suc i) (snd (parse_sse_line self l), ids) ls))"
      by (auto simp: Let_def split: if_splits)
    from Cons.IH[OF this] None show ?thesis by simp
  next
    case (Some ev)
    let ?ids = "update_ids loads ev (wid, tid)"
    show ?thesis
    proof (cases "process_event loads ev (fst ?ids) (snd ?ids)")
      case Discarded
      with Cons.prems ids Some
      have "Yield (DumpsUnicode r) \<in>
        set (fst (consume loads fired (Suc i) (snd (parse_sse_line self l), ?ids) ls))"
        by (auto simp: Let_def split: if_splits)
      from Cons.IH[OF this] Some show ?thesis by simp
    next
      case (Yielded y)
      with Cons.prems ids Some have "y = DumpsUnicode r"
        by (auto simp: Let_def split: if_splits)
      with process_event_unicode[of loads ev "fst ?ids" "snd ?ids" r] Yielded Some
      show ?thesis by simp
    next
      case (Raised e)
      with Cons.prems ids Some show ?thesis by (auto simp: Let_def split: if_splits)
    next
      case Consumed
      with Cons.prems ids Some
      have "Yield (DumpsUnicode r) \<in>
        set (fst (consume loads fired (Suc i) (snd (parse_sse_line self l), ?ids) ls))"
        by (auto simp: Let_def split: if_splits)
      from Cons.IH[OF this] Some show ?thesis by simp
    qed
  qed
qed

lemma outputs_member: "y \<in> set (outputs as) \<Longrightarrow> Yield y \<in> set as"
  by (induction as rule: outputs.induct) auto

lemma simplified_is_unicode: "is_simplified_result y \<Longrightarrow> \<exists>r. y = DumpsUnicode r"
  by (cases y) (simp_all add: is_simplified_result_def)

lemma simplified_origin:
  assumes "outputs (fst (process_dify_stream loads fired self sse_lines upstream)) = [y]"
    and "is_simplified_result y"
  shows "\<exists>ev r. ev \<in> set (records self sse_lines) \<and> is_workflow_finished_event loads ev
           \<and> extract_workflow_result loads ev = Some r \<and> y = DumpsUnicode r"
proof -
  from assms(2) obtain r where r: "y = DumpsUnicode r" by (auto dest: simplified_is_unicode)
  obtain acts self' wid tid fin where
    c: "consume loads fired 0 (self, JNull, JNull) sse_lines = (acts, (self', wid, tid), fin)"
    by (metis prod_cases3)
  from assms(1) have "y \<in> set (outputs (fst (process_dify_stream loads fired self sse_lines upstream)))"
    by simp
  then have "Yield y \<in> set (fst (process_dify_stream loads fired self sse_lines upstream))"
    by (rule outputs_member)
  then have "Yield (DumpsUnicode r) \<in> set acts"
    unfolding process_dify_stream_def c r
    by (cases fin; cases upstream) auto
  with consume_unicode_origin[of r loads fired 0 self "(JNull, JNull)" sse_lines] c r
  show ?thesis by auto
qed

text \<open>
  C1. Every invocation of \<open>process_dify_stream\<close> yields exactly one text, whatever the
  lines, the state of the processor, the timer and the way the upstream ends. It is a
  simplified result or an error result, and a simplified result only if it is the one
  extracted from a terminal success record of the stream. When the lines before a record
  are consumed without ending the invocation, the one text is the extracted simplified
  result if the record is a terminal success record that is no error record and whose
  extraction succeeds, and the error result with the message of the record if it is an
  error record whose message can be read. When all lines are consumed without ending the
  invocation, the one text is the error result of exhaustion, or, when the upstream
  raises, the error result with the text of its exception.
\<close>

theorem process_dify_stream_one_output:
  "(\<exists>y. outputs (fst (process_dify_stream loads fired self sse_lines upstream)) = [y]
        \<and> (is_simplified_result y \<or> is_error_result y)
        \<and> (is_simplified_result y \<longrightarrow>
             (\<exists>ev r. ev \<in> set (records self sse_lines) \<and> is_workflow_finished_event loads ev
                  \<and> extract_workflow_result loads ev = Some r \<and> y = DumpsUnicode r)))
   \<and> (\<forall>pre l post ev w t.
        sse_lines = pre @ l # post
        \<and> snd (snd (consume loads fired 0 (self, JNull, JNull) pre)) = Drained
        \<and> records self (pre @ [l]) = records self pre @ [ev]
        \<and> foldl (\<lambda>ids ev. update_ids loads ev ids) (JNull, JNull) (records self (pre @ [l])) = (w, t)
        \<longrightarrow> (\<forall>r. is_error_event loads ev = Inr False \<and> is_workflow_finished_event loads ev
                 \<and> extract_workflow_result loads ev = Some r
               \<longrightarrow> outputs (fst (process_dify_stream loads fired self sse_lines upstream)) =
                     [DumpsUnicode r])
          \<and> (\<forall>m. is_error_event loads ev = Inr True \<and> error_msg_of loads ev = Some m
               \<longrightarrow> outputs (fst (process_dify_stream loads fired self sse_lines upstream)) =
                     [Dumps (create_error_response m w t)]))
   \<and> (\<forall>w t. snd (snd (consume loads fired 0 (self, JNull, JNull) sse_lines)) = Drained
        \<and> foldl (\<lambda>ids ev. update_ids loads ev ids) (JNull, JNull) (records self sse_lines) = (w, t)
        \<longrightarrow> outputs (fst (process_dify_stream loads fired self sse_lines upstream)) =
              [Dumps (create_error_response
                 (JStr (case upstream of
                          Exhausted \<Rightarrow> py ''Stream ended without workflow completion''
                        | Raises m \<Rightarrow> py ''Stream processing error: '' @ m)) w t)])"
proof (intro conjI allI impI)
  obtain acts self' wid tid r where
    c: "consume loads fired 0 (self, JNull, JNull) sse_lines = (acts, (self', wid, tid), r)"
    by (metis prod_cases3)
  from consume_outputs[of loads fired 0 "(self, JNull, JNull)" sse_lines]
  have "\<exists>y. outputs (fst (process_dify_stream loads fired self sse_lines upstream)) = [y]
       \<and> (is_simplified_result y \<or> is_error_result y)"
    unfolding process_dify_stream_def c
    by (cases r; cases upstream) (auto simp: outputs_append is_error_result_create)
  then obtain y where
    y: "outputs (fst (process_dify_stream loads fired self sse_lines upstream)) = [y]"
    and k: "is_simplified_result y \<or> is_error_result y" by blast
  from simplified_origin[OF y] y k
  show "\<exists>y. outputs (fst (process_dify_stream loads fired self sse_lines upstream)) = [y]
        \<and> (is_simplified_result y \<or> is_error_result y)
        \<and> (is_simplified_result y \<longrightarrow>
             (\<exists>ev r. ev \<in> set (records self sse_lines) \<and> is_workflow_finished_event loads ev
                  \<and> extract_workflow_result loads ev = Some r \<and> y = DumpsUnicode r))"
    by blast
next
  fix pre l post ev w t r
  assume a: "sse_lines = pre @ l # post
        \<and> snd (snd (consume loads fired 0 (self, JNull, JNull) pre)) = Drained
        \<and> records self (pre @ [l]) = records self pre @ [ev]
        \<and> foldl (\<lambda>ids ev. update_ids loads ev ids) (JNull, JNull) (records self (pre @ [l])) = (w, t)"
    and b: "is_error_event loads ev = Inr False \<and> is_workflow_finished_event loads ev
                 \<and> extract_workflow_result loads ev = Some r"
  from b have pe: "process_event loads ev w t = Yielded (DumpsUnicode r)"
    by (simp add: process_event_success)
  from a have s: "sse_lines = pre @ l # post"
    and reach: "snd (snd (consume loads fired 0 (self, JNull, JNull) pre)) = Drained"
    and rec: "records self (pre @ [l]) = records self pre @ [ev]"
    and ids: "foldl (\<lambda>ids ev. update_ids loads ev ids) (JNull, JNull) (records self (pre @ [l])) = (w, t)"
    by blast+
  show "outputs (fst (process_dify_stream loads fired self sse_lines upstream)) = [DumpsUnicode r]"
    unfolding s by (rule outputs_at_record[OF reach rec ids pe])
next
  fix pre l post ev w t m
  assume a: "sse_lines = pre @ l # post
        \<and> snd (snd (consume loads fired 0 (self, JNull, JNull) pre)) = Drained
        \<and> records self (pre @ [l]) = records self pre @ [ev]
        \<and> foldl (\<lambda>ids ev. update_ids loads ev ids) (JNull, JNull) (records self (pre @ [l])) = (w, t)"
    and b: "is_error_event loads ev = Inr True \<and> error_msg_of loads ev = Some m"
  from b have pe: "process_event loads ev w t = Yielded (Dumps (create_error_response m w t))"
    by (simp add: process_event_error)
  from a have s: "sse_lines = pre @ l # post"
    and reach: "snd (snd (consume loads fired 0 (self, JNull, JNull) pre)) = Drained"
    and rec: "records self (pre @ [l]) = records self pre @ [ev]"
    and ids: "foldl (\<lambda>ids ev. update_ids loads ev ids) (JNull, JNull) (records self (pre @ [l])) = (w, t)"
    by blast+
  show "outputs (fst (process_dify_stream loads fired self sse_lines upstream)) =
      [Dumps (create_error_response m w t)]"
    unfolding s by (rule outputs_at_record[OF reach rec ids pe])
next
  fix w t
  assume "snd (snd (consume loads fired 0 (self, JNull, JNull) sse_lines)) = Drained
        \<and> foldl (\<lambda>ids ev. update_ids loads ev ids) (JNull, JNull) (records self sse_lines) = (w, t)"
  then have reach: "snd (snd (consume loads fired 0 (self, JNull, JNull) sse_lines)) = Drained"
    and ids: "foldl (\<lambda>ids ev. update_ids loads ev ids) (JNull, JNull) (records self sse_lines) = (w, t)"
    by blast+
  show "outputs (fst (process_dify_stream loads fired self sse_lines upstream)) =
              [Dumps (create_error_response
                 (JStr (case upstream of
                          Exhausted \<Rightarrow> py ''Stream ended without workflow completion''
                        | Raises m \<Rightarrow> py ''Stream processing error: '' @ m)) w t)]"
    by (rule outputs_drained[OF reach ids])
qed

theorem process_dify_stream_one_output_witness:
  \<open>outputs (fst (process_dify_stream json_loads {} None
      ([py ''data: {"workflow_run_id":"r1","event":"node_started"}''] @
       py ''data: {"event":"workflow_finished","task_id":"t1","data":{"status":"succeeded","outputs":{"result":"[1, 2]"}}}'' #
       [py ''data: {"event":"error"}'']) Exhausted)) =
     [DumpsUnicode (JObj
        [(py ''workflow_run_id'', JStr (py '''')),
         (py ''task_id'', JStr (py ''t1'')),
         (py ''status'', JStr (py ''succeeded'')),
         (py ''result'', JArr [JInt 1, JInt 2]),
         (py ''event_type'', JStr (py ''workflow_finished''))])]\<close>
proof -
  let ?pre = \<open>[py ''data: {"workflow_run_id":"r1","event":"node_started"}'']\<close>
  let ?l = \<open>py ''data: {"event":"workflow_finished","task_id":"t1","data":{"status":"succeeded","outputs":{"result":"[1, 2]"}}}''\<close>
  let ?post = \<open>[py ''data: {"event":"error"}'']\<close>
  let ?ev = \<open>\<lparr>event = py ''message'',
     data = py ''{"event":"workflow_finished","task_id":"t1","data":{"status":"succeeded","outputs":{"result":"[1, 2]"}}}''\<rparr>\<close>
  let ?r = "JObj
        [(py ''workflow_run_id'', JStr (py '''')),
         (py ''task_id'', JStr (py ''t1'')),
         (py ''status'', JStr (py ''succeeded'')),
         (py ''result'', JArr [JInt 1, JInt 2]),
         (py ''event_type'', JStr (py ''workflow_finished''))]"
  have reach: "snd (snd (consume json_loads {} 0 (None, JNull, JNull) ?pre)) = Drained"
    by code_simp
  have rec: "records None (?pre @ [?l]) = records None ?pre @ [?ev]"
    by code_simp
  have ids: "foldl (\<lambda>ids ev. update_ids json_loads ev ids) (JNull, JNull)
               (records None (?pre @ [?l])) = (JStr (py ''r1''), JStr (py ''t1''))"
    by code_simp
  have ne: "is_error_event json_loads ?ev = Inr False"
    by code_simp
  have fin: "is_workflow_finished_event json_loads ?ev"
    by code_simp
  have ex: "extract_workflow_result json_loads ?ev = Some ?r"
    by code_simp
  from process_dify_stream_one_output[of json_loads "{}" None "?pre @ ?l # ?post" Exhausted]
  have "\<forall>pre l post ev w t.
        ?pre @ ?l # ?post = pre @ l # post
        \<and> snd (snd (consume json_loads {} 0 (None, JNull, JNull) pre)) = Drained
        \<and> records None (pre @ [l]) = records None pre @ [ev]
        \<and> foldl (\<lambda>ids ev. update_ids json_loads ev ids) (JNull, JNull) (records None (pre @ [l])) = (w, t)
        \<longrightarrow> (\<forall>r. is_error_event json_loads ev = Inr False \<and> is_workflow_finished_event json_loads ev
                 \<and> extract_workflow_result json_loads ev = Some r
               \<longrightarrow> outputs (fst (process_dify_stream json_loads {} None (?pre @ ?l # ?post) Exhausted)) =
                     [DumpsUnicode r])"
    by blast
  with reach rec ids ne fin ex show ?thesis by blast
qed

subsection \<open>The keep-alive task\<close>

lemma one_timer_consume: "one_timer p (fst (consume loads fired i fr ls))"
proof (induction ls arbitrary: p i fr)
  case Nil
  show ?case by simp
next
  case (Cons l ls)
  obtain self wid tid where fr: "fr = (self, wid, tid)" by (cases fr)
  show ?case
  proof (cases "fst (parse_sse_line self l)")
    case None
    with Cons.IH[of False "Suc i" "(snd (parse_sse_line self l), wid, tid)"] fr show ?thesis
      by (simp add: Let_def)
  next
    case (Some ev)
    let ?ids = "update_ids loads ev (wid, tid)"
    show ?thesis
    proof (cases "process_event loads ev (fst ?ids) (snd ?ids)")
      case Discarded
      with Cons.IH[of False "Suc i" "(snd (parse_sse_line self l), ?ids)"] fr Some show ?thesis
        by (simp add: Let_def)
    next
      case (Yielded y)
      with fr Some show ?thesis by (simp add: Let_def)
    next
      case (Raised e)
      with fr Some show ?thesis by (simp add: Let_def)
    next
      case Consumed
      with Cons.IH[of True "Suc i" "(snd (parse_sse_line self l), ?ids)"] fr Some show ?thesis
        by (simp add: Let_def)
    qed
  qed
qed

lemma pending_consume_ended:
  "snd (snd (consume loads fired i fr ls)) \<noteq> Drained \<Longrightarrow>
   \<not> pending p (fst (consume loads fired i fr ls))"
proof (induction ls arbitrary: p i fr)
  case Nil
  then show ?case by simp
next
  case (Cons l ls)
  obtain self wid tid where fr: "fr = (self, wid, tid)" by (cases fr)
  show ?case
  proof (cases "fst (parse_sse_line self l)")
    case None
    with Cons.prems fr
    have "snd (snd (consume loads fired (Suc i) (snd (parse_sse_line self l), wid, tid) ls)) \<noteq> Drained"
      by (simp add: Let_def)
    from Cons.IH[OF this, of False] None fr show ?thesis by (simp add: Let_def)
  next
    case (Some ev)
    let ?ids = "update_ids loads ev (wid, tid)"
    show ?thesis
    proof (cases "process_event loads ev (fst ?ids) (snd ?ids)")
      case Discarded
      with Cons.prems fr Some
      have "snd (snd (consume loads fired (Suc i) (snd (parse_sse_line self l), ?ids) ls)) \<noteq> Drained"
        by (simp add: Let_def)
      from Cons.IH[OF this, of False] Some fr Discarded show ?thesis by (simp add: Let_def)
    next
      case (Yielded y)
      with fr Some show ?thesis by (simp add: Let_def)
    next
      case (Raised e)
      with Cons.prems fr Some show ?thesis by (simp add: Let_def)
    next
      case Consumed
      with Cons.prems fr Some
      have "snd (snd (consume loads fired (Suc i) (snd (parse_sse_line self l), ?ids) ls)) \<noteq> Drained"
        by (simp add: Let_def)
      from Cons.IH[OF this, of True] Some fr Consumed show ?thesis by (simp add: Let_def)
    qed
  qed
qed

lemma consume_timer_independent:
  "outputs (fst (consume loads fired i fr ls)) = outputs (fst (consume loads fired' j fr ls))
   \<and> snd (consume loads fired i fr ls) = snd (consume loads fired' j fr ls)"
proof (induction ls arbitrary: i j fr)
  case Nil
  show ?case by simp
next
  case (Cons l ls)
  obtain self wid tid where fr: "fr = (self, wid, tid)" by (cases fr)
  show ?case
  proof (cases "fst (parse_sse_line self l)")
    case None
    with Cons.IH[of "Suc i" "(snd (parse_sse_line self l), wid, tid)" "Suc j"] fr show ?thesis
      by (simp add: Let_def outputs_append)
  next
    case (Some ev)
    let ?ids = "update_ids loads ev (wid, tid)"
    show ?thesis
    proof (cases "process_event loads ev (fst ?ids) (snd ?ids)")
      case Discarded
      with Cons.IH[of "Suc i" "(snd (parse_sse_line self l), ?ids)" "Suc j"] fr Some show ?thesis
        by (simp add: Let_def outputs_append)
    next
      case (Yielded y)
      with fr Some show ?thesis by (simp add: Let_def outputs_append)
    next
      case (Raised e)
      with fr Some show ?thesis by (simp add: Let_def)
    next
      case Consumed
      with Cons.IH[of "Suc i" "(snd (parse_sse_line self l), ?ids)" "Suc j"] fr Some show ?thesis
        by (simp add: Let_def outputs_append)
    qed
  qed
qed

lemma one_timer_snoc_yield: "one_timer p (xs @ [Yield y]) = one_timer p xs"
  by (induction p xs rule: one_timer.induct) simp_all

lemma pending_snoc_yield: "pending p (xs @ [Yield y]) = pending p xs"
  by (induction p xs rule: pending.induct) simp_all

text \<open>
  The claim C9 as stated fails. On a stream that is exhausted at once the task created at
  entry is never cancelled; on a stream with one progress record the task created after
  that record is still pending when the error result has been yielded. And after an error
  record whose handling fails the task is cancelled but none is created: the next line
  cancels again.
\<close>

theorem keepalive_counterexample:
  \<open>fst (process_dify_stream json_loads {} None [] Exhausted) =
     [CreateKeepalive,
      Yield (Dumps (create_error_response
        (JStr (py ''Stream ended without workflow completion'')) JNull JNull))]
   \<and> fst (process_dify_stream json_loads {} None [py ''data: {"event":"node_started"}''] Exhausted) =
     [CreateKeepalive, CancelKeepalive, CreateKeepalive,
      Yield (Dumps (create_error_response
        (JStr (py ''Stream ended without workflow completion'')) JNull JNull))]
   \<and> pending False (fst (process_dify_stream json_loads {} None
        [py ''data: {"event":"node_started"}''] Exhausted))
   \<and> records None
        [py ''data: {"event":"error","data":"boom"}'', py ''data: {"event":"node_started"}''] =
     [\<lparr>event = py ''message'', data = py ''{"event":"error","data":"boom"}''\<rparr>,
      \<lparr>event = py ''message'', data = py ''{"event":"node_started"}''\<rparr>]
   \<and> fst (process_dify_stream json_loads {} None
        [py ''data: {"event":"error","data":"boom"}'', py ''data: {"event":"node_started"}'']
        Exhausted) =
     [CreateKeepalive, CancelKeepalive, CancelKeepalive, CreateKeepalive,
      Yield (Dumps (create_error_response
        (JStr (py ''Stream ended without workflow completion'')) JNull JNull))]\<close>
  by code_simp

text \<open>
  C9, amended. In every invocation a keep-alive task is created at entry. Every time a
  line that is reached produces a record that is no error record and no terminal success
  record with an extracted result, the task is cancelled, or found done, and a fresh one
  is created at once. A task is created only while none is pending. When the invocation
  ends at a record, by a success or error result or by an exception, no task is left
  pending. Whether and when a task is done changes neither the texts yielded nor the state
  the parser is left in.
\<close>

theorem keepalive_discipline:
  "(\<exists>tr. fst (process_dify_stream loads fired self sse_lines upstream) = CreateKeepalive # tr)
   \<and> (\<forall>pre l post ev.
        sse_lines = pre @ l # post
        \<and> snd (snd (consume loads fired 0 (self, JNull, JNull) pre)) = Drained
        \<and> records self (pre @ [l]) = records self pre @ [ev]
        \<and> is_error_event loads ev = Inr False
        \<and> (is_workflow_finished_event loads ev \<longrightarrow> extract_workflow_result loads ev = None)
        \<longrightarrow> (\<exists>rest. fst (process_dify_stream loads fired self sse_lines upstream) =
              CreateKeepalive # fst (consume loads fired 0 (self, JNull, JNull) pre) @
              [if length pre \<in> fired then KeepaliveDone else CancelKeepalive, CreateKeepalive] @
              rest))
   \<and> one_timer False (fst (process_dify_stream loads fired self sse_lines upstream))
   \<and> (snd (snd (consume loads fired 0 (self, JNull, JNull) sse_lines)) \<noteq> Drained \<longrightarrow>
        \<not> pending False (fst (process_dify_stream loads fired self sse_lines upstream)))
   \<and> outputs (fst (process_dify_stream loads fired self sse_lines upstream)) =
       outputs (fst (process_dify_stream loads fired' self sse_lines upstream))
   \<and> snd (process_dify_stream loads fired self sse_lines upstream) =
       snd (process_dify_stream loads fired' self sse_lines upstream)"
proof -
  obtain acts self' wid tid r where
    c: "consume loads fired 0 (self, JNull, JNull) sse_lines = (acts, (self', wid, tid), r)"
    by (metis prod_cases3)
  obtain acts' where
    c': "consume loads fired' 0 (self, JNull, JNull) sse_lines = (acts', (self', wid, tid), r)"
    and o: "outputs acts = outputs acts'"
    using consume_timer_independent[of loads fired 0 "(self, JNull, JNull)" sse_lines fired' 0] c
    by (cases "consume loads fired' 0 (self, JNull, JNull) sse_lines") simp
  have ot: "one_timer True acts"
    using one_timer_consume[of True loads fired 0 "(self, JNull, JNull)" sse_lines] c by simp
  have pd: "r \<noteq> Drained \<Longrightarrow> \<not> pending True acts"
    using pending_consume_ended[of loads fired 0 "(self, JNull, JNull)" sse_lines True] c
    by simp
  have 0: "\<exists>tr. fst (process_dify_stream loads fired self sse_lines upstream) = CreateKeepalive # tr"
    unfolding process_dify_stream_def c by simp
  have 1: "one_timer False (fst (process_dify_stream loads fired self sse_lines upstream))"
    unfolding process_dify_stream_def c using ot
    by (cases r; cases upstream) (simp_all add: one_timer_snoc_yield)
  have 2: "snd (snd (consume loads fired 0 (self, JNull, JNull) sse_lines)) \<noteq> Drained \<longrightarrow>
        \<not> pending False (fst (process_dify_stream loads fired self sse_lines upstream))"
    unfolding process_dify_stream_def c using pd
    by (cases r) (simp_all add: pending_snoc_yield)
  have 3: "outputs (fst (process_dify_stream loads fired self sse_lines upstream)) =
       outputs (fst (process_dify_stream loads fired' self sse_lines upstream))"
    unfolding process_dify_stream_def c c' using o by (simp add: outputs_append)
  have 4: "snd (process_dify_stream loads fired self sse_lines upstream) =
       snd (process_dify_stream loads fired' self sse_lines upstream)"
    unfolding process_dify_stream_def c c' by simp
  have 5: "\<exists>rest. fst (process_dify_stream loads fired self sse_lines upstream) =
              CreateKeepalive # fst (consume loads fired 0 (self, JNull, JNull) pre) @
              [if length pre \<in> fired then KeepaliveDone else CancelKeepalive, CreateKeepalive] @
              rest"
    if a: "sse_lines = pre @ l # post
        \<and> snd (snd (consume loads fired 0 (self, JNull, JNull) pre)) = Drained
        \<and> records self (pre @ [l]) = records self pre @ [ev]
        \<and> is_error_event loads ev = Inr False
        \<and> (is_workflow_finished_event loads ev \<longrightarrow> extract_workflow_result loads ev = None)"
    for pre l post ev
  proof -
    from a have s: "sse_lines = pre @ l # post"
      and reach: "snd (snd (consume loads fired 0 (self, JNull, JNull) pre)) = Drained"
      and rec: "records self (pre @ [l]) = records self pre @ [ev]"
      and ne: "is_error_event loads ev = Inr False"
      and nf: "is_workflow_finished_event loads ev \<longrightarrow> extract_workflow_result loads ev = None"
      by blast+
    obtain w t where
      ids: "foldl (\<lambda>ids ev. update_ids loads ev ids) (JNull, JNull) (records self (pre @ [l])) = (w, t)"
      by (cases "foldl (\<lambda>ids ev. update_ids loads ev ids) (JNull, JNull) (records self (pre @ [l]))")
    have pe: "process_event loads ev w t = Consumed"
      using ne nf by (rule process_event_passed)
    show ?thesis
      unfolding s process_dify_stream_def consume_at_record[OF reach rec ids] Let_def pe
      by (simp split: prod.splits)
  qed
  from 0 1 2 3 4 5 show ?thesis by blast
qed

theorem keepalive_discipline_witness:
  \<open>\<exists>rest. fst (process_dify_stream json_loads {} None
       ([py ''data: {"event":"workflow_started"}''] @ py ''data: {"event":"node_started"}'' #
        [py ''data: {"event":"workflow_finished"}'']) Exhausted) =
     CreateKeepalive # [CancelKeepalive, CreateKeepalive] @ [CancelKeepalive, CreateKeepalive] @ rest\<close>
proof -
  let ?pre = \<open>[py ''data: {"event":"workflow_started"}'']\<close>
  let ?l = \<open>py ''data: {"event":"node_started"}''\<close>
  let ?post = \<open>[py ''data: {"event":"workflow_finished"}'']\<close>
  let ?ev = \<open>\<lparr>event = py ''message'', data = py ''{"event":"node_started"}''\<rparr>\<close>
  have reach: "snd (snd (consume json_loads {} 0 (None, JNull, JNull) ?pre)) = Drained"
    by code_simp
  have tr: "fst (consume json_loads {} 0 (None, JNull, JNull) ?pre) = [CancelKeepalive, CreateKeepalive]"
    by code_simp
  have rec: "records None (?pre @ [?l]) = records None ?pre @ [?ev]"
    by code_simp
  have ne: "is_error_event json_loads ?ev = Inr False"
    by code_simp
  have nf: "is_workflow_finished_event json_loads ?ev \<longrightarrow> extract_workflow_result json_loads ?ev = None"
    by code_simp
  have i: "(if length ?pre \<in> {} then KeepaliveDone else CancelKeepalive) = CancelKeepalive"
    by simp
  from keepalive_discipline[of json_loads "{}" None "?pre @ ?l # ?post" Exhausted "{}"]
  have "\<forall>pre l post ev.
        ?pre @ ?l # ?post = pre @ l # post
        \<and> snd (snd (consume json_loads {} 0 (None, JNull, JNull) pre)) = Drained
        \<and> records None (pre @ [l]) = records None pre @ [ev]
        \<and> is_error_event json_loads ev = Inr False
        \<and> (is_workflow_finished_event json_loads ev \<longrightarrow> extract_workflow_result json_loads ev = None)
        \<longrightarrow> (\<exists>rest. fst (process_dify_stream json_loads {} None (?pre @ ?l # ?post) Exhausted) =
              CreateKeepalive # fst (consume json_loads {} 0 (None, JNull, JNull) pre) @
              [if length pre \<in> {} then KeepaliveDone else CancelKeepalive, CreateKeepalive] @
              rest)"
    by blast
  then have "\<exists>rest. fst (process_dify_stream json_loads {} None (?pre @ ?l # ?post) Exhausted) =
              CreateKeepalive # fst (consume json_loads {} 0 (None, JNull, JNull) ?pre) @
              [if length ?pre \<in> {} then KeepaliveDone else CancelKeepalive, CreateKeepalive] @
              rest"
    using reach rec ne nf by blast
  then show ?thesis unfolding tr i .
qed

subsection \<open>Chunk boundaries\<close>

text \<open>
  C6, the code at a failing input. The two chunk sequences below are partitions of the same
  bytes, the line \<open>data: {"a":"\<dots>"}\<close> with the letter U+00E9 in UTF-8 between the
  quotes. Each chunk is decoded by itself and invalid bytes are dropped, so when the
  boundary falls between the two bytes of the letter both are lost: the line reassembled
  from one chunk holds the letter, the line reassembled from two does not.
\<close>

theorem rechunking_drops_split_character:
  \<open>concat [map of_char ''data: {"a":"'' @ [0xC3], [0xA9] @ map of_char ''"}'' @ [0x0A]] =
     concat [map of_char ''data: {"a":"'' @ [0xC3, 0xA9] @ map of_char ''"}'' @ [0x0A :: byte]]
   \<and> execute_workflow_stream
       [map of_char ''data: {"a":"'' @ [0xC3, 0xA9] @ map of_char ''"}'' @ [0x0A]] =
     [py ''data: {"a":"'' @ [233] @ py ''"}'']
   \<and> execute_workflow_stream
       [map of_char ''data: {"a":"'' @ [0xC3], [0xA9] @ map of_char ''"}'' @ [0x0A]] =
     [py ''data: {"a":""}'']\<close>
  by code_simp

subsection \<open>Where the partition of the bytes does not matter\<close>

lemma split_lines_no_newline: "10 \<notin> set buffer \<Longrightarrow> split_lines buffer = ([], buffer)"
  by (subst split_lines.simps) simp

lemma split_lines_newline:
  "10 \<in> set buffer \<Longrightarrow>
   split_lines buffer =
     ((if strip (takeWhile (\<lambda>c. c \<noteq> 10) buffer) \<noteq> []
       then [strip (takeWhile (\<lambda>c. c \<noteq> 10) buffer)] else [])
        @ fst (split_lines (tl (dropWhile (\<lambda>c. c \<noteq> 10) buffer))),
      snd (split_lines (tl (dropWhile (\<lambda>c. c \<noteq> 10) buffer))))"
  by (subst split_lines.simps) (simp add: Let_def)

lemma split_lines_append:
  "split_lines (a @ b) =
     (fst (split_lines a) @ fst (split_lines (snd (split_lines a) @ b)),
      snd (split_lines (snd (split_lines a) @ b)))"
proof (induction a rule: split_lines.induct)
  case (1 buffer)
  show ?case
  proof (cases "10 \<in> set buffer")
    case False
    then show ?thesis by (simp add: split_lines_no_newline)
  next
    case True
    then have ne: "dropWhile (\<lambda>c. c \<noteq> 10) buffer \<noteq> []" by simp
    from True have tw: "takeWhile (\<lambda>c. c \<noteq> 10) (buffer @ b) = takeWhile (\<lambda>c. c \<noteq> 10) buffer"
      by (simp add: takeWhile_append1)
    from True have dw: "dropWhile (\<lambda>c. c \<noteq> 10) (buffer @ b) = dropWhile (\<lambda>c. c \<noteq> 10) buffer @ b"
      by (simp add: dropWhile_append1)
    have tl: "tl (dropWhile (\<lambda>c. c \<noteq> 10) (buffer @ b)) = tl (dropWhile (\<lambda>c. c \<noteq> 10) buffer) @ b"
      using ne by (simp add: dw)
    from True have in2: "10 \<in> set (buffer @ b)" by simp
    let ?l = "if strip (takeWhile (\<lambda>c. c \<noteq> 10) buffer) \<noteq> []
       then [strip (takeWhile (\<lambda>c. c \<noteq> 10) buffer)] else []"
    let ?t = "tl (dropWhile (\<lambda>c. c \<noteq> 10) buffer)"
    have a: "split_lines (buffer @ b) = (?l @ fst (split_lines (?t @ b)), snd (split_lines (?t @ b)))"
      unfolding split_lines_newline[OF in2] tw tl ..
    have c: "split_lines buffer = (?l @ fst (split_lines ?t), snd (split_lines ?t))"
      by (rule split_lines_newline[OF True])
    have ih: "split_lines (?t @ b) =
       (fst (split_lines ?t) @ fst (split_lines (snd (split_lines ?t) @ b)),
        snd (split_lines (snd (split_lines ?t) @ b)))"
      by (rule "1.IH"[OF True refl])
    have "fst (split_lines (buffer @ b)) =
        fst (split_lines buffer) @ fst (split_lines (snd (split_lines buffer) @ b))"
      by (simp only: a c fst_conv snd_conv append_assoc) (simp only: ih fst_conv)
    moreover have "snd (split_lines (buffer @ b)) = snd (split_lines (snd (split_lines buffer) @ b))"
      by (simp only: a c fst_conv snd_conv) (simp only: ih snd_conv)
    ultimately show ?thesis by (simp only: prod_eq_iff fst_conv snd_conv)
  qed
qed

lemma read_chunks_flush:
  "fst (split_lines buffer) @ read_chunks (snd (split_lines buffer)) chunks =
     flush_lines (buffer @ concat (map utf8_decode_ignore chunks))"
proof (induction chunks arbitrary: buffer)
  case Nil
  show ?case by (simp add: flush_lines_def)
next
  case (Cons chunk chunks)
  let ?b = "snd (split_lines buffer)"
  let ?d = "utf8_decode_ignore chunk"
  let ?rest = "?d @ concat (map utf8_decode_ignore chunks)"
  have sa: "split_lines (buffer @ ?rest) =
      (fst (split_lines buffer) @ fst (split_lines (?b @ ?rest)), snd (split_lines (?b @ ?rest)))"
    by (rule split_lines_append)
  have tot: "flush_lines (buffer @ ?rest) = fst (split_lines buffer) @ flush_lines (?b @ ?rest)"
    unfolding flush_lines_def by (simp only: sa fst_conv snd_conv append_assoc)
  show ?case
  proof (cases "chunk = []")
    case True
    with Cons.IH[of buffer] show ?thesis by simp
  next
    case False
    have "read_chunks ?b (chunk # chunks) =
        fst (split_lines (?b @ ?d)) @ read_chunks (snd (split_lines (?b @ ?d))) chunks"
      using False by (simp add: Let_def)
    also have "\<dots> = flush_lines ((?b @ ?d) @ concat (map utf8_decode_ignore chunks))"
      by (rule Cons.IH)
    finally show ?thesis using tot by simp
  qed
qed

text \<open>
  The lines yielded depend on the chunks only through the concatenation of their
  decodings.
\<close>

lemma execute_workflow_stream_flush:
  "execute_workflow_stream chunks = flush_lines (concat (map utf8_decode_ignore chunks))"
  using read_chunks_flush[of "[]" chunks]
  by (simp add: execute_workflow_stream_def split_lines_no_newline)

lemma utf8_decode_ignore_ascii:
  "\<forall>b \<in> set bs. b < 0x80 \<Longrightarrow> utf8_decode_ignore bs = map uint bs"
  by (induction bs) simp_all

text \<open>
  On bytes below \<open>0x80\<close> decoding commutes with concatenation, and any two partitions of
  the same bytes, empty chunks included, yield the same lines.
\<close>

lemma rechunking_ascii:
  assumes "concat chunks = concat chunks'"
    and "\<forall>b \<in> set (concat chunks). b < 0x80"
  shows "execute_workflow_stream chunks = execute_workflow_stream chunks'"
proof -
  have d: "concat (map utf8_decode_ignore cs) = map uint (concat cs)"
    if "\<forall>b \<in> set (concat cs). b < 0x80" for cs
    using that by (induction cs) (simp_all add: utf8_decode_ignore_ascii)
  from assms show ?thesis
    by (simp add: execute_workflow_stream_flush d)
qed

subsection \<open>Which records the loop passes over\<close>

text \<open>
  A record of an event type other than \<open>error\<close> is passed over when its data is not
  valid JSON, and when it decodes to an object whose \<open>event\<close> field is neither \<open>error\<close>
  nor \<open>workflow_finished\<close>; when it decodes to a value that is not an object, or the
  decoder raises another exception, the error test raises.
\<close>

lemma undecodable_record_consumed:
  "loads (data ev) = JSONDecodeError \<Longrightarrow> event ev \<noteq> py ''error'' \<Longrightarrow>
   process_event loads ev w t = Consumed"
  by (simp add: process_event_def is_error_event_def is_workflow_finished_event_def
      parse_data_def)

lemma progress_record_consumed:
  "loads (data ev) = Value (JObj env) \<Longrightarrow> event ev \<noteq> py ''error'' \<Longrightarrow>
   map_of env (py ''event'') \<noteq> Some (JStr (py ''error'')) \<Longrightarrow>
   map_of env (py ''event'') \<noteq> Some (JStr (py ''workflow_finished'')) \<Longrightarrow>
   process_event loads ev w t = Consumed"
  by (auto simp: process_event_def is_error_event_def is_workflow_finished_event_def
      parse_data_def split: option.splits)

lemma non_object_record_raises:
  "loads (data ev) = Value v \<Longrightarrow> (\<forall>kvs. v \<noteq> JObj kvs) \<Longrightarrow> event ev \<noteq> py ''error'' \<Longrightarrow>
   process_event loads ev w t = Raised (AttributeError (type_name v))"
  by (cases v) (simp_all add: process_event_def is_error_event_def parse_data_def)

lemma refused_record_raises:
  "loads (data ev) = OtherError m \<Longrightarrow> event ev \<noteq> py ''error'' \<Longrightarrow>
   process_event loads ev w t = Raised (LoadsError m)"
  by (simp add: process_event_def is_error_event_def parse_data_def)

end
